theory Spec2Isabelle
  imports Main "HOL-Library.Sublist"
begin

section \<open>The init context of the k6 script loader (js/initcontext.go)\<close>

text \<open>
  The Go file defines \<open>InitContext\<close> with the methods \<open>Require\<close>, \<open>requireModule\<close>,
  \<open>requireFile\<close> and \<open>Open\<close>, and the constructors \<open>NewInitContext\<close> and
  \<open>newBoundInitContext\<close>. Everything the methods call outside the file is a collaborator:
  the path functions and the loader (package \<open>loader\<close>), the transformer (package
  \<open>compiler\<close>), the registry of builtin modules (package \<open>modules\<close>), the binder
  (package \<open>common\<close>) and the scripting engine (goja). The collaborators that are pure
  functions are parameters of the model (the record \<open>collaborators\<close>); the engine is modelled
  by the part of it the file relies on: a table of global bindings, objects with identity, and
  programs whose top-level code may read and write globals and properties, throw, catch, and
  call the host functions \<open>require\<close> and \<open>open\<close>, which are the methods \<open>Require\<close> and
  \<open>Open\<close> of the context that runs the program.

  A method that returns an error, or throws it into the script, returns \<open>Inl\<close> of it. A module
  may require itself and then \<open>Require\<close> never returns: \<open>requireFile\<close> takes the depth of
  nested file loads it may use and returns \<open>None\<close> when that is not enough. The store keeps
  a trace of the collaborator calls, which the Go code does not have; it is what "called
  once" is stated about.
\<close>

subsection \<open>Script values and the runtime\<close>

datatype val = Undefined | Null | Num int | Str string | Ref nat

type_synonym object = "string \<Rightarrow> val"

text \<open>A runtime holds its global bindings, each of which may be unset, and its objects; an
  object's identity is its index, and objects are never removed.\<close>

record Runtime =
  globals :: "string \<rightharpoonup> val"
  objects :: "object list"

text \<open>\<open>Get\<close> returns no value (Go's nil) for a binding that is unset. \<open>Set\<close> converts what
  it is given to a value of the script, and that conversion makes null of Go's nil: \<open>Set\<close>
  of the result of \<open>Get\<close> on an unset binding binds it to null.\<close>

definition to_value :: "val option \<Rightarrow> val" where
  "to_value v = (case v of None \<Rightarrow> Null | Some w \<Rightarrow> w)"

definition runtime_Get :: "Runtime \<Rightarrow> string \<Rightarrow> val option" where
  "runtime_Get rt name = globals rt name"

definition runtime_Set :: "Runtime \<Rightarrow> string \<Rightarrow> val option \<Rightarrow> Runtime" where
  "runtime_Set rt name v = rt\<lparr>globals := (globals rt)(name \<mapsto> to_value v)\<rparr>"

definition runtime_ToValue :: "Runtime \<Rightarrow> object \<Rightarrow> nat \<times> Runtime" where
  "runtime_ToValue rt ob = (length (objects rt), rt\<lparr>objects := objects rt @ [ob]\<rparr>)"

definition runtime_NewObject :: "Runtime \<Rightarrow> nat \<times> Runtime" where
  "runtime_NewObject rt = runtime_ToValue rt (\<lambda>k. Undefined)"

definition object_Get :: "Runtime \<Rightarrow> nat \<Rightarrow> string \<Rightarrow> val" where
  "object_Get rt a k = (if a < length (objects rt) then (objects rt ! a) k else Undefined)"

definition object_Set :: "Runtime \<Rightarrow> nat \<Rightarrow> string \<Rightarrow> val \<Rightarrow> Runtime" where
  "object_Set rt a k v =
     (if a < length (objects rt)
      then rt\<lparr>objects := (objects rt)[a := ((objects rt) ! a)(k := v)]\<rparr>
      else rt)"

subsection \<open>Programs\<close>

text \<open>The top-level code of a module, as far as the loader can observe it.\<close>

datatype expr =
    EUndefined
  | ENum int
  | EStr string
  | EVar string
  | EObject
  | EProp expr string
  | EPlus expr expr
  | ERequire string
  | EOpen string

datatype stmt =
    SExpr expr
  | SAssign string expr
  | SSetProp expr string expr
  | SPlusAssign expr string expr
  | SThrow string
  | SSeq stmt stmt
  | STry stmt stmt

type_synonym Program = stmt

record programWithSource =
  pgm :: Program
  src :: string

subsection \<open>Errors, collaborators, the store\<close>

text \<open>An error of a collaborator is opaque (a message); the constructor records which call
  returned it. \<open>ErrorString\<close> is Go's \<open>errors.New\<close>; \<open>Exception\<close> is an exception raised
  by the script itself.\<close>

datatype error =
    ErrorString string
  | LoadError string
  | TransformError string
  | CompileError string
  | Exception string

definition UnknownBuiltinModule :: "string \<Rightarrow> error" where
  "UnknownBuiltinModule name = ErrorString (''unknown builtin module: '' @ name)"

record SourceData =
  Data :: string
  Filename :: string

type_synonym Fs = "string \<rightharpoonup> string"

record collaborators =
  Resolve :: "string \<Rightarrow> string \<Rightarrow> string"
  Dir :: "string \<Rightarrow> string"
  Load :: "Fs option \<Rightarrow> string \<Rightarrow> string \<Rightarrow> string + SourceData"
  Transform :: "string \<Rightarrow> string \<Rightarrow> string + string"
  Compile :: "string \<Rightarrow> string \<Rightarrow> bool \<Rightarrow> string + Program"
  Index :: "string \<rightharpoonup> object"
  Bind :: "nat \<Rightarrow> object \<Rightarrow> nat \<Rightarrow> object"

text \<open>Calls to the collaborators are recorded, each with the cache key it was made for.\<close>

datatype event =
    RequireLoad string
  | TransformCall string
  | CompileCall string
  | RunCall string
  | OpenLoad string

text \<open>Go maps and runtimes are reference types: a context holds references, the store
  holds what they refer to.\<close>

record store =
  runtimes :: "nat \<Rightarrow> Runtime"
  program_maps :: "nat \<Rightarrow> (string \<rightharpoonup> programWithSource)"
  file_maps :: "nat \<Rightarrow> (string \<rightharpoonup> string)"
  next_ref :: nat
  trace :: "event list"

record InitContext =
  runtime :: nat
  ctxPtr :: nat
  fs :: "Fs option"
  pwd :: string
  programs :: nat
  files :: nat
  Console :: nat

type_synonym outcome = "(error + val) \<times> InitContext \<times> store"

definition emit :: "event \<Rightarrow> store \<Rightarrow> store" where
  "emit e s = s\<lparr>trace := trace s @ [e]\<rparr>"

definition set_runtime :: "nat \<Rightarrow> Runtime \<Rightarrow> store \<Rightarrow> store" where
  "set_runtime r rt s = s\<lparr>runtimes := (runtimes s)(r := rt)\<rparr>"

subsection \<open>Constructors\<close>

definition NewInitContext :: "nat \<Rightarrow> nat \<Rightarrow> Fs option \<Rightarrow> string \<Rightarrow> store \<Rightarrow> InitContext \<times> store" where
  "NewInitContext rt cp f p s =
     (let a = next_ref s in
      (\<lparr>runtime = rt, ctxPtr = cp, fs = f, pwd = p,
        programs = a, files = a + 1, Console = a + 2\<rparr>,
       s\<lparr>program_maps := (program_maps s)(a := Map.empty),
         file_maps := (file_maps s)(a + 1 := Map.empty),
         next_ref := a + 3\<rparr>))"

definition newBoundInitContext :: "InitContext \<Rightarrow> nat \<Rightarrow> nat \<Rightarrow> InitContext" where
  "newBoundInitContext base cp rt =
     \<lparr>runtime = rt, ctxPtr = cp, fs = None, pwd = pwd base,
      programs = programs base, files = files base, Console = Console base\<rparr>"

subsection \<open>The engine running a program\<close>

definition get_prop :: "Runtime \<Rightarrow> val \<Rightarrow> string \<Rightarrow> error + val" where
  "get_prop rt v p =
     (case v of
        Ref a \<Rightarrow> Inr (object_Get rt a p)
      | Undefined \<Rightarrow> Inl (Exception ''TypeError'')
      | Null \<Rightarrow> Inl (Exception ''TypeError'')
      | _ \<Rightarrow> Inr Undefined)"

definition set_prop :: "Runtime \<Rightarrow> val \<Rightarrow> string \<Rightarrow> val \<Rightarrow> error + Runtime" where
  "set_prop rt v p w =
     (case v of
        Ref a \<Rightarrow> Inr (object_Set rt a p w)
      | _ \<Rightarrow> Inl (Exception ''TypeError''))"

text \<open>The sum of two numbers or of two strings. Numbers are integers, which the script's
  numbers represent exactly only up to \<open>2 ^ 53\<close>, and the conversions the script applies to
  operands of other kinds are not modelled: \<open>Undefined\<close> stands for such a sum.\<close>

definition plus_val :: "val \<Rightarrow> val \<Rightarrow> val" where
  "plus_val v w =
     (case (v, w) of
        (Num a, Num b) \<Rightarrow> Num (a + b)
      | (Str a, Str b) \<Rightarrow> Str (a @ b)
      | _ \<Rightarrow> Undefined)"

text \<open>\<open>rq\<close> and \<open>op\<close> are the host functions bound to \<open>require\<close> and \<open>open\<close>; \<open>r\<close> is
  the runtime the program runs in. \<open>None\<close> means that evaluation does not return.\<close>

primrec eval ::
  "(InitContext \<Rightarrow> string \<Rightarrow> store \<Rightarrow> outcome option) \<Rightarrow>
   (InitContext \<Rightarrow> string \<Rightarrow> store \<Rightarrow> (error + string) \<times> store) \<Rightarrow>
   nat \<Rightarrow> expr \<Rightarrow> InitContext \<Rightarrow> store \<Rightarrow> outcome option" where
  "eval rq op r EUndefined i s = Some (Inr Undefined, i, s)"
| "eval rq op r (ENum n) i s = Some (Inr (Num n), i, s)"
| "eval rq op r (EStr t) i s = Some (Inr (Str t), i, s)"
| "eval rq op r (EVar x) i s =
     (case runtime_Get (runtimes s r) x of
        None \<Rightarrow> Some (Inl (Exception ''ReferenceError''), i, s)
      | Some v \<Rightarrow> Some (Inr v, i, s))"
| "eval rq op r EObject i s =
     (case runtime_NewObject (runtimes s r) of
        (a, rt) \<Rightarrow> Some (Inr (Ref a), i, set_runtime r rt s))"
| "eval rq op r (EProp e p) i s =
     (case eval rq op r e i s of
        None \<Rightarrow> None
      | Some (Inl err, i1, s1) \<Rightarrow> Some (Inl err, i1, s1)
      | Some (Inr v, i1, s1) \<Rightarrow> Some (get_prop (runtimes s1 r) v p, i1, s1))"
| "eval rq op r (EPlus e1 e2) i s =
     (case eval rq op r e1 i s of
        None \<Rightarrow> None
      | Some (Inl err, i1, s1) \<Rightarrow> Some (Inl err, i1, s1)
      | Some (Inr v, i1, s1) \<Rightarrow>
          (case eval rq op r e2 i1 s1 of
             None \<Rightarrow> None
           | Some (Inl err, i2, s2) \<Rightarrow> Some (Inl err, i2, s2)
           | Some (Inr w, i2, s2) \<Rightarrow> Some (Inr (plus_val v w), i2, s2)))"
| "eval rq op r (ERequire name) i s = rq i name s"
| "eval rq op r (EOpen name) i s =
     (case op i name s of
        (Inl err, s1) \<Rightarrow> Some (Inl err, i, s1)
      | (Inr d, s1) \<Rightarrow> Some (Inr (Str d), i, s1))"

primrec exec ::
  "(InitContext \<Rightarrow> string \<Rightarrow> store \<Rightarrow> outcome option) \<Rightarrow>
   (InitContext \<Rightarrow> string \<Rightarrow> store \<Rightarrow> (error + string) \<times> store) \<Rightarrow>
   nat \<Rightarrow> stmt \<Rightarrow> InitContext \<Rightarrow> store \<Rightarrow> outcome option" where
  "exec rq op r (SExpr e) i s = eval rq op r e i s"
| "exec rq op r (SAssign x e) i s =
     (case eval rq op r e i s of
        None \<Rightarrow> None
      | Some (Inl err, i1, s1) \<Rightarrow> Some (Inl err, i1, s1)
      | Some (Inr v, i1, s1) \<Rightarrow>
          Some (Inr v, i1, set_runtime r (runtime_Set (runtimes s1 r) x (Some v)) s1))"
| "exec rq op r (SSetProp e p e') i s =
     (case eval rq op r e i s of
        None \<Rightarrow> None
      | Some (Inl err, i1, s1) \<Rightarrow> Some (Inl err, i1, s1)
      | Some (Inr v, i1, s1) \<Rightarrow>
          (case eval rq op r e' i1 s1 of
             None \<Rightarrow> None
           | Some (Inl err, i2, s2) \<Rightarrow> Some (Inl err, i2, s2)
           | Some (Inr w, i2, s2) \<Rightarrow>
               (case set_prop (runtimes s2 r) v p w of
                  Inl err \<Rightarrow> Some (Inl err, i2, s2)
                | Inr rt \<Rightarrow> Some (Inr w, i2, set_runtime r rt s2))))"
| "exec rq op r (SPlusAssign e p e') i s =
     (case eval rq op r e i s of
        None \<Rightarrow> None
      | Some (Inl err, i1, s1) \<Rightarrow> Some (Inl err, i1, s1)
      | Some (Inr v, i1, s1) \<Rightarrow>
          (case get_prop (runtimes s1 r) v p of
             Inl err \<Rightarrow> Some (Inl err, i1, s1)
           | Inr old \<Rightarrow>
               (case eval rq op r e' i1 s1 of
                  None \<Rightarrow> None
                | Some (Inl err, i2, s2) \<Rightarrow> Some (Inl err, i2, s2)
                | Some (Inr w, i2, s2) \<Rightarrow>
                    (case set_prop (runtimes s2 r) v p (plus_val old w) of
                       Inl err \<Rightarrow> Some (Inl err, i2, s2)
                     | Inr rt \<Rightarrow> Some (Inr (plus_val old w), i2, set_runtime r rt s2)))))"
| "exec rq op r (SThrow msg) i s = Some (Inl (Exception msg), i, s)"
| "exec rq op r (SSeq p q) i s =
     (case exec rq op r p i s of
        None \<Rightarrow> None
      | Some (Inl err, i1, s1) \<Rightarrow> Some (Inl err, i1, s1)
      | Some (Inr v, i1, s1) \<Rightarrow> exec rq op r q i1 s1)"
| "exec rq op r (STry p q) i s =
     (case exec rq op r p i s of
        None \<Rightarrow> None
      | Some (Inl err, i1, s1) \<Rightarrow> exec rq op r q i1 s1
      | Some (Inr v, i1, s1) \<Rightarrow> Some (Inr v, i1, s1))"

definition runtime_RunProgram ::
  "(InitContext \<Rightarrow> string \<Rightarrow> store \<Rightarrow> outcome option) \<Rightarrow>
   (InitContext \<Rightarrow> string \<Rightarrow> store \<Rightarrow> (error + string) \<times> store) \<Rightarrow>
   nat \<Rightarrow> Program \<Rightarrow> InitContext \<Rightarrow> store \<Rightarrow> outcome option" where
  "runtime_RunProgram rq op r p i s = exec rq op r p i s"

subsection \<open>The methods of the init context\<close>

text \<open>\<open>requireModule\<close>: the registry lookup; \<open>ToValue\<close> makes a new object of the bound
  module.\<close>

definition requireModule ::
  "collaborators \<Rightarrow> InitContext \<Rightarrow> string \<Rightarrow> store \<Rightarrow> (error + val) \<times> store" where
  "requireModule c i name s =
     (case Index c name of
        None \<Rightarrow> (Inl (UnknownBuiltinModule name), s)
      | Some m \<Rightarrow>
          (case runtime_ToValue (runtimes s (runtime i)) (Bind c (runtime i) m (ctxPtr i)) of
             (a, rt) \<Rightarrow> (Inr (Ref a), set_runtime (runtime i) rt s)))"

definition Open ::
  "collaborators \<Rightarrow> InitContext \<Rightarrow> string \<Rightarrow> store \<Rightarrow> (error + string) \<times> store" where
  "Open c i name s =
     (let filename = Resolve c (pwd i) name in
      case file_maps s (files i) filename of
        Some data \<Rightarrow> (Inr data, s)
      | None \<Rightarrow>
          (let s1 = emit (OpenLoad filename) s in
           case Load c (fs i) (pwd i) name of
             Inl err \<Rightarrow> (Inl (LoadError err), s1)
           | Inr d \<Rightarrow>
               (Inr (Data d),
                s1\<lparr>file_maps := (file_maps s1)
                     (files i := (file_maps s1 (files i))(filename \<mapsto> Data d))\<rparr>)))"

text \<open>The block of \<open>requireFile\<close> that reads the program cache and, on a miss, loads,
  transforms, compiles and stores the program.\<close>

definition cached_program ::
  "collaborators \<Rightarrow> InitContext \<Rightarrow> string \<Rightarrow> string \<Rightarrow> string \<Rightarrow> store \<Rightarrow>
   (error + programWithSource) \<times> store" where
  "cached_program c i pwd0 name filename s =
     (case program_maps s (programs i) filename of
        Some p \<Rightarrow> (Inr p, s)
      | None \<Rightarrow>
          (let s1 = emit (RequireLoad filename) s in
           case Load c (fs i) pwd0 name of
             Inl err \<Rightarrow> (Inl (LoadError err), s1)
           | Inr d \<Rightarrow>
               (let s2 = emit (TransformCall filename) s1 in
                case Transform c (Data d) (Filename d) of
                  Inl err \<Rightarrow> (Inl (TransformError err), s2)
                | Inr t \<Rightarrow>
                    (let s3 = emit (CompileCall filename) s2 in
                     case Compile c (Filename d) t True of
                       Inl err \<Rightarrow> (Inl (CompileError err), s3)
                     | Inr g \<Rightarrow>
                         (let p = \<lparr>pgm = g, src = t\<rparr> in
                          (Inr p,
                           s3\<lparr>program_maps := (program_maps s3)
                                (programs i := (program_maps s3 (programs i))(filename \<mapsto> p))\<rparr>))))))"

text \<open>The three deferred calls of \<open>requireFile\<close>, in the order they run.\<close>

definition deferred ::
  "nat \<Rightarrow> string \<Rightarrow> val option \<Rightarrow> val option \<Rightarrow> outcome \<Rightarrow> outcome" where
  "deferred r pwd0 oldExports oldModule out =
     (case out of
        (res, i, s) \<Rightarrow>
          (res, i\<lparr>pwd := pwd0\<rparr>,
           set_runtime r
             (runtime_Set (runtime_Set (runtimes s r) ''module'' oldModule)
                ''exports'' oldExports) s))"

text \<open>\<open>Require\<close>, with the function it falls back to as an argument: \<open>Inl\<close> is the
  error thrown into the script.\<close>

definition Require_via ::
  "(InitContext \<Rightarrow> string \<Rightarrow> store \<Rightarrow> outcome option) \<Rightarrow>
   collaborators \<Rightarrow> InitContext \<Rightarrow> string \<Rightarrow> store \<Rightarrow> outcome option" where
  "Require_via file c i arg s =
     (if arg = ''k6'' \<or> prefix ''k6/'' arg
      then (case requireModule c i arg s of (res, s1) \<Rightarrow> Some (res, i, s1))
      else file i arg s)"

text \<open>The block of \<open>requireFile\<close> that installs a new \<open>exports\<close> object and a new
  \<open>module\<close> object; it returns both objects and the runtime.\<close>

definition module_scope :: "Runtime \<Rightarrow> nat \<times> nat \<times> Runtime" where
  "module_scope rt0 =
     (let (exports, rt1) = runtime_NewObject rt0;
          rt2 = runtime_Set rt1 ''exports'' (Some (Ref exports));
          (module, rt3) = runtime_NewObject rt2;
          rt4 = object_Set rt3 module ''exports'' (Ref exports);
          rt5 = runtime_Set rt4 ''module'' (Some (Ref module))
      in (exports, module, rt5))"

text \<open>\<open>requireFile\<close>. The first argument bounds the depth of nested file loads: a module
  that requires itself never returns, and neither does the model (\<open>None\<close>).\<close>

primrec requireFile ::
  "nat \<Rightarrow> collaborators \<Rightarrow> InitContext \<Rightarrow> string \<Rightarrow> store \<Rightarrow> outcome option" where
  "requireFile 0 c i name s = None"
| "requireFile (Suc n) c i name s =
     (let pwd0 = pwd i;
          filename = Resolve c pwd0 name;
          i1 = i\<lparr>pwd := Dir c filename\<rparr>;
          r = runtime i;
          oldExports = runtime_Get (runtimes s r) ''exports'';
          oldModule = runtime_Get (runtimes s r) ''module'';
          (exports, module, rt) = module_scope (runtimes s r);
          s1 = set_runtime r rt s
      in map_option (deferred r pwd0 oldExports oldModule)
           (case cached_program c i1 pwd0 name filename s1 of
              (Inl err, s2) \<Rightarrow> Some (Inl err, i1, s2)
            | (Inr p, s2) \<Rightarrow>
                (case runtime_RunProgram (Require_via (requireFile n c) c) (Open c) r (pgm p) i1
                        (emit (RunCall filename) s2) of
                   None \<Rightarrow> None
                 | Some (Inl err, i2, s3) \<Rightarrow> Some (Inl err, i2, s3)
                 | Some (Inr v, i2, s3) \<Rightarrow>
                     Some (Inr (object_Get (runtimes s3 r) module ''exports''), i2, s3))))"

definition Require ::
  "nat \<Rightarrow> collaborators \<Rightarrow> InitContext \<Rightarrow> string \<Rightarrow> store \<Rightarrow> outcome option" where
  "Require n c = Require_via (requireFile n c) c"

subsection \<open>Names for the states inside \<open>requireFile\<close>\<close>

text \<open>The context and the store in which the program of a module starts, the store after the
  deferred calls, and the new \<open>module\<close> object; \<open>same_ctx\<close> holds of two contexts that
  differ at most in \<open>pwd\<close>.\<close>

definition same_ctx :: "InitContext \<Rightarrow> InitContext \<Rightarrow> bool" where
  "same_ctx i i' = (i'\<lparr>pwd := pwd i\<rparr> = i)"

definition entered_ctx :: "collaborators \<Rightarrow> InitContext \<Rightarrow> string \<Rightarrow> InitContext" where
  "entered_ctx c i name = i\<lparr>pwd := Dir c (Resolve c (pwd i) name)\<rparr>"

definition entered_store :: "InitContext \<Rightarrow> store \<Rightarrow> store" where
  "entered_store i s =
     set_runtime (runtime i) (snd (snd (module_scope (runtimes s (runtime i))))) s"

definition restored :: "InitContext \<Rightarrow> store \<Rightarrow> store \<Rightarrow> store" where
  "restored i s s3 =
     set_runtime (runtime i)
       (runtime_Set
          (runtime_Set (runtimes s3 (runtime i)) ''module''
             (runtime_Get (runtimes s (runtime i)) ''module''))
          ''exports'' (runtime_Get (runtimes s (runtime i)) ''exports'')) s3"

definition module_ref :: "InitContext \<Rightarrow> store \<Rightarrow> nat" where
  "module_ref i s = fst (snd (module_scope (runtimes s (runtime i))))"

subsection \<open>Notions used to state the properties\<close>

text \<open>A reserved name; the calls of the load, transform and compile pipeline made for a
  path; \<open>grows\<close>: nothing is removed from a cache, a heap or the trace; \<open>reuses\<close>: a module
  that is in the cache \<open>a\<close> for \<open>P\<close> stays there and the pipeline is not called for \<open>P\<close>.\<close>

definition builtin_name :: "string \<Rightarrow> bool" where
  "builtin_name arg = (arg = ''k6'' \<or> prefix ''k6/'' arg)"

definition pipeline_event :: "string \<Rightarrow> event \<Rightarrow> bool" where
  "pipeline_event P e = (e = RequireLoad P \<or> e = TransformCall P \<or> e = CompileCall P)"

definition pipeline_calls :: "string \<Rightarrow> store \<Rightarrow> event list" where
  "pipeline_calls P s = filter (pipeline_event P) (trace s)"

definition grows :: "InitContext \<Rightarrow> store \<Rightarrow> InitContext \<Rightarrow> store \<Rightarrow> bool" where
  "grows i s i' s' =
     (same_ctx i i' \<and> prefix (trace s) (trace s') \<and>
      (\<forall>r. length (objects (runtimes s r)) \<le> length (objects (runtimes s' r))) \<and>
      (\<forall>a k v. program_maps s a k = Some v \<longrightarrow> program_maps s' a k = Some v) \<and>
      (\<forall>a k v. file_maps s a k = Some v \<longrightarrow> file_maps s' a k = Some v))"

definition reuses :: "nat \<Rightarrow> string \<Rightarrow> InitContext \<Rightarrow> store \<Rightarrow> InitContext \<Rightarrow> store \<Rightarrow> bool" where
  "reuses a P i s i' s' =
     (same_ctx i i' \<and>
      (programs i = a \<longrightarrow>
       (\<forall>v. program_maps s a P = Some v \<longrightarrow>
            program_maps s' a P = Some v \<and> pipeline_calls P s' = pipeline_calls P s)))"

text \<open>What the three collaborator calls of the cache-miss block return, without the
  bookkeeping.\<close>

definition load_transform_compile ::
  "collaborators \<Rightarrow> Fs option \<Rightarrow> string \<Rightarrow> string \<Rightarrow> error + programWithSource" where
  "load_transform_compile c f q name =
     (case Load c f q name of
        Inl err \<Rightarrow> Inl (LoadError err)
      | Inr d \<Rightarrow>
          (case Transform c (Data d) (Filename d) of
             Inl err \<Rightarrow> Inl (TransformError err)
           | Inr t \<Rightarrow>
               (case Compile c (Filename d) t True of
                  Inl err \<Rightarrow> Inl (CompileError err)
                | Inr g \<Rightarrow> Inr \<lparr>pgm = g, src = t\<rparr>)))"

subsection \<open>A small installation\<close>

text \<open>Collaborators, a file system and two modules to run the methods on: paths are resolved
  against the directory, the loader reads the file system, and the compiler knows the two
  modules \<open>lib.js\<close> (which sets \<open>module.exports\<close> to a new object with \<open>value\<close> 1) and
  \<open>main.js\<close> (which requires \<open>lib.js\<close> twice), and \<open>outer.js\<close>, which requires
  \<open>sub/inner.js\<close>, which throws, and \<open>probe.js\<close>, which stores what it sees of
  \<open>exports\<close>, \<open>module\<close> and \<open>module.exports\<close> in three globals.\<close>

definition demo_Resolve :: "string \<Rightarrow> string \<Rightarrow> string" where
  "demo_Resolve p name =
     (if take 2 name = ''./'' then p @ ''/'' @ drop 2 name
      else if take 1 name = ''/'' then name
      else p @ ''/'' @ name)"

definition demo_Dir :: "string \<Rightarrow> string" where
  "demo_Dir path = rev (drop 1 (dropWhile (\<lambda>ch. ch \<noteq> CHR ''/'') (rev path)))"

text \<open>The loader of the installation reads the file system it is given. Every context the
  installation uses has a file system; what the loader of the repository does without one is
  not part of the file, and nothing below depends on the value chosen here for that case.\<close>

definition demo_Load :: "Fs option \<Rightarrow> string \<Rightarrow> string \<Rightarrow> string + SourceData" where
  "demo_Load f p name =
     (case f of
        None \<Rightarrow> Inl ''no filesystem''
      | Some g \<Rightarrow>
          (case g (demo_Resolve p name) of
             None \<Rightarrow> Inl ''file not found''
           | Some d \<Rightarrow> Inr \<lparr>Data = d, Filename = demo_Resolve p name\<rparr>))"

definition lib_js :: Program where
  "lib_js =
     SSeq (SAssign ''o'' EObject)
       (SSeq (SSetProp (EVar ''o'') ''value'' (ENum 1))
          (SSetProp (EVar ''module'') ''exports'' (EVar ''o'')))"

definition main_js :: Program where
  "main_js =
     SSeq (SAssign ''x'' (EProp (ERequire ''./lib.js'') ''value''))
       (SPlusAssign (ERequire ''./lib.js'') ''value'' (ENum 1))"

definition outer_js :: Program where
  "outer_js = SExpr (ERequire ''./sub/inner.js'')"

definition inner_js :: Program where
  "inner_js = SThrow ''boom''"

definition probe_js :: Program where
  "probe_js =
     SSeq (SAssign ''seen_exports'' (EVar ''exports''))
       (SSeq (SAssign ''seen_module'' (EVar ''module''))
          (SAssign ''seen_alias'' (EProp (EVar ''module'') ''exports'')))"

definition demo_Compile :: "string \<Rightarrow> string \<Rightarrow> bool \<Rightarrow> string + Program" where
  "demo_Compile fname t strict =
     (if t = ''lib'' then Inr lib_js
      else if t = ''main'' then Inr main_js
      else if t = ''outer'' then Inr outer_js
      else if t = ''inner'' then Inr inner_js
      else if t = ''probe'' then Inr probe_js
      else Inl ''SyntaxError'')"

definition demo_Transform :: "string \<Rightarrow> string \<Rightarrow> string + string" where
  "demo_Transform t fname = (if t = [] then Inl ''empty source'' else Inr t)"

definition demo :: collaborators where
  "demo =
     \<lparr>Resolve = demo_Resolve, Dir = demo_Dir, Load = demo_Load,
      Transform = demo_Transform,
      Compile = demo_Compile,
      Index = [''k6'' \<mapsto> (\<lambda>k. if k = ''version'' then Num 1 else Undefined)],
      Bind = (\<lambda>r m cp. m)\<rparr>"

definition demo_fs :: Fs where
  "demo_fs =
     [''/t/lib.js'' \<mapsto> ''lib'', ''/t/main.js'' \<mapsto> ''main'', ''/t/bad.js'' \<mapsto> ''garbage'',
      ''/t/a.txt'' \<mapsto> ''hello'', ''/t/outer.js'' \<mapsto> ''outer'', ''/t/sub/inner.js'' \<mapsto> ''inner'',
      ''/t/probe.js'' \<mapsto> ''probe'']"

definition demo_store :: store where
  "demo_store =
     \<lparr>runtimes = (\<lambda>r. \<lparr>globals = Map.empty, objects = []\<rparr>),
      program_maps = (\<lambda>a. Map.empty), file_maps = (\<lambda>a. Map.empty),
      next_ref = 3, trace = []\<rparr>"

definition demo_base :: InitContext where
  "demo_base =
     \<lparr>runtime = 0, ctxPtr = 0, fs = Some demo_fs, pwd = ''/t'',
      programs = 0, files = 1, Console = 2\<rparr>"

text \<open>The store after \<open>lib.js\<close> has been required once, the base context after the file
  has been deleted, and the store in which a host has bound \<open>exports\<close> and \<open>module\<close> to two
  objects of its own before it runs a script.\<close>

definition warm_store :: store where
  "warm_store = snd (snd (the (Require 1 demo demo_base ''./lib.js'' demo_store)))"

definition deleted_ctx :: InitContext where
  "deleted_ctx = demo_base\<lparr>fs := Some (demo_fs(''/t/lib.js'' := None))\<rparr>"

definition host_store :: store where
  "host_store = set_runtime 0 (snd (snd (module_scope (runtimes demo_store 0)))) demo_store"

section \<open>Properties\<close>

subsection \<open>Frame rules\<close>

lemma set_runtime_simps [simp]:
  "runtimes (set_runtime r rt s) = (runtimes s)(r := rt)"
  "program_maps (set_runtime r rt s) = program_maps s"
  "file_maps (set_runtime r rt s) = file_maps s"
  "next_ref (set_runtime r rt s) = next_ref s"
  "trace (set_runtime r rt s) = trace s"
  by (simp_all add: set_runtime_def)

lemma emit_simps [simp]:
  "runtimes (emit e s) = runtimes s"
  "program_maps (emit e s) = program_maps s"
  "file_maps (emit e s) = file_maps s"
  "next_ref (emit e s) = next_ref s"
  "trace (emit e s) = trace s @ [e]"
  by (simp_all add: emit_def)

lemma module_scope_eq:
  "module_scope rt =
     (length (objects rt), Suc (length (objects rt)),
      \<lparr>globals = (globals rt)(''exports'' \<mapsto> Ref (length (objects rt)),
                              ''module'' \<mapsto> Ref (Suc (length (objects rt)))),
       objects = objects rt @ [\<lambda>k. Undefined, (\<lambda>k. Undefined)(''exports'' := Ref (length (objects rt)))]\<rparr>)"
  by (simp add: module_scope_def runtime_NewObject_def runtime_ToValue_def runtime_Set_def
      object_Set_def nth_append list_update_append to_value_def)

lemma seqE:
  assumes "(case X of None \<Rightarrow> None
            | Some (Inl err, i1, s1) \<Rightarrow> Some (Inl err, i1, s1)
            | Some (Inr v, i1, s1) \<Rightarrow> F v i1 s1) = Some out"
  obtains (failed) err i1 s1 where "X = Some (Inl err, i1, s1)" and "out = (Inl err, i1, s1)"
        | (passed) v i1 s1 where "X = Some (Inr v, i1, s1)" and "F v i1 s1 = Some out"
  using assms by (auto split: option.splits sum.splits)

text \<open>A relation between the states before and after a step that is reflexive and transitive and
  holds for every step of the engine and of the host functions holds for evaluation.\<close>

lemma eval_frame:
  assumes R_refl: "\<And>i s. R i s i s"
    and R_trans: "\<And>i s i1 s1 i2 s2. R i s i1 s1 \<Longrightarrow> R i1 s1 i2 s2 \<Longrightarrow> R i s i2 s2"
    and R_rt: "\<And>i s rt. length (objects (runtimes s r)) \<le> length (objects rt) \<Longrightarrow>
                 R i s i (set_runtime r rt s)"
    and R_rq: "\<And>i name s res i1 s1. rq i name s = Some (res, i1, s1) \<Longrightarrow> R i s i1 s1"
    and R_op: "\<And>i name s res s1. op i name s = (res, s1) \<Longrightarrow> R i s i s1"
  shows "eval rq op r e i s = Some (res, i', s') \<Longrightarrow> R i s i' s'"
proof (induction e arbitrary: i s res i' s')
  case EObject
  then show ?case
    by (auto simp: runtime_NewObject_def runtime_ToValue_def intro!: R_rt)
next
  case (EProp e p)
  from EProp.prems [unfolded eval.simps] show ?case
    by (elim seqE) (auto dest: EProp.IH)
next
  case (EPlus e1 e2)
  from EPlus.prems [unfolded eval.simps] show ?case
  proof (elim seqE)
    fix err i1 s1
    assume "eval rq op r e1 i s = Some (Inl err, i1, s1)" "(res, i', s') = (Inl err, i1, s1)"
    then show ?thesis using EPlus.IH(1) by auto
  next
    fix v i1 s1 err i2 s2
    assume "eval rq op r e1 i s = Some (Inr v, i1, s1)"
      "eval rq op r e2 i1 s1 = Some (Inl err, i2, s2)" "(res, i', s') = (Inl err, i2, s2)"
    then show ?thesis using EPlus.IH R_trans by blast
  next
    fix v i1 s1 w i2 s2
    assume "eval rq op r e1 i s = Some (Inr v, i1, s1)"
      "eval rq op r e2 i1 s1 = Some (Inr w, i2, s2)"
      "Some (Inr (plus_val v w), i2, s2) = Some (res, i', s')"
    then show ?thesis using EPlus.IH R_trans by blast
  qed
next
  case (ERequire name)
  then show ?case by (auto intro: R_rq)
next
  case (EOpen name)
  then show ?case
    by (auto split: prod.splits sum.splits intro: R_op)
qed (auto intro: R_refl split: option.splits)


lemma exec_frame:
  assumes R_refl: "\<And>i s. R i s i s"
    and R_trans: "\<And>i s i1 s1 i2 s2. R i s i1 s1 \<Longrightarrow> R i1 s1 i2 s2 \<Longrightarrow> R i s i2 s2"
    and R_rt: "\<And>i s rt. length (objects (runtimes s r)) \<le> length (objects rt) \<Longrightarrow>
                 R i s i (set_runtime r rt s)"
    and R_rq: "\<And>i name s res i1 s1. rq i name s = Some (res, i1, s1) \<Longrightarrow> R i s i1 s1"
    and R_op: "\<And>i name s res s1. op i name s = (res, s1) \<Longrightarrow> R i s i s1"
  shows "exec rq op r p i s = Some (res, i', s') \<Longrightarrow> R i s i' s'"
proof (induction p arbitrary: i s res i' s')
  have ev: "\<And>e i s res i' s'. eval rq op r e i s = Some (res, i', s') \<Longrightarrow> R i s i' s'"
    using assms by (rule eval_frame)
  have set_ok: "\<And>i s v p w rt. set_prop (runtimes s r) v p w = Inr rt \<Longrightarrow>
      R i s i (set_runtime r rt s)"
    by (rule R_rt) (auto simp: set_prop_def object_Set_def split: val.splits)
  {
    case (SExpr e)
    then show ?case using ev by simp
  next
    case (SAssign x e)
    from SAssign.prems [unfolded exec.simps] show ?case
    proof (elim seqE)
      fix err i1 s1
      assume "eval rq op r e i s = Some (Inl err, i1, s1)" "(res, i', s') = (Inl err, i1, s1)"
      then show ?thesis using ev by auto
    next
      fix v i1 s1
      assume a: "eval rq op r e i s = Some (Inr v, i1, s1)"
        "Some (Inr v, i1, set_runtime r (runtime_Set (runtimes s1 r) x (Some v)) s1) = Some (res, i', s')"
      have "R i1 s1 i1 (set_runtime r (runtime_Set (runtimes s1 r) x (Some v)) s1)"
        by (rule R_rt) (simp add: runtime_Set_def)
      with a show ?thesis using ev R_trans by blast
    qed
  next
    case (SSetProp e p e')
    from SSetProp.prems [unfolded exec.simps] show ?case
    proof (elim seqE)
      fix err i1 s1
      assume "eval rq op r e i s = Some (Inl err, i1, s1)" "(res, i', s') = (Inl err, i1, s1)"
      then show ?thesis using ev by auto
    next
      fix v i1 s1 err i2 s2
      assume "eval rq op r e i s = Some (Inr v, i1, s1)"
        "eval rq op r e' i1 s1 = Some (Inl err, i2, s2)" "(res, i', s') = (Inl err, i2, s2)"
      then show ?thesis using ev R_trans by blast
    next
      fix v i1 s1 w i2 s2
      assume a: "eval rq op r e i s = Some (Inr v, i1, s1)"
        "eval rq op r e' i1 s1 = Some (Inr w, i2, s2)"
        and b: "(case set_prop (runtimes s2 r) v p w of
              Inl err \<Rightarrow> Some (Inl err, i2, s2)
            | Inr rt \<Rightarrow> Some (Inr w, i2, set_runtime r rt s2)) = Some (res, i', s')"
      from a have "R i s i2 s2" using ev R_trans by blast
      moreover from b have "R i2 s2 i' s'"
        using set_ok R_refl by (auto split: sum.splits)
      ultimately show ?thesis by (rule R_trans)
    qed
  next
    case (SPlusAssign e p e')
    from SPlusAssign.prems [unfolded exec.simps] show ?case
    proof (elim seqE)
      fix err i1 s1
      assume "eval rq op r e i s = Some (Inl err, i1, s1)" "(res, i', s') = (Inl err, i1, s1)"
      then show ?thesis using ev by auto
    next
      fix v i1 s1
      assume a: "eval rq op r e i s = Some (Inr v, i1, s1)"
        and b: "(case get_prop (runtimes s1 r) v p of
              Inl err \<Rightarrow> Some (Inl err, i1, s1)
            | Inr old \<Rightarrow>
                (case eval rq op r e' i1 s1 of
                   None \<Rightarrow> None
                 | Some (Inl err, i2, s2) \<Rightarrow> Some (Inl err, i2, s2)
                 | Some (Inr w, i2, s2) \<Rightarrow>
                     (case set_prop (runtimes s2 r) v p (plus_val old w) of
                        Inl err \<Rightarrow> Some (Inl err, i2, s2)
                      | Inr rt \<Rightarrow> Some (Inr (plus_val old w), i2, set_runtime r rt s2))))
             = Some (res, i', s')"
      from a have 1: "R i s i1 s1" by (rule ev)
      show ?thesis
      proof (cases "get_prop (runtimes s1 r) v p")
        case (Inl err)
        with b 1 show ?thesis by simp
      next
        case (Inr old)
        with b have "(case eval rq op r e' i1 s1 of
                   None \<Rightarrow> None
                 | Some (Inl err, i2, s2) \<Rightarrow> Some (Inl err, i2, s2)
                 | Some (Inr w, i2, s2) \<Rightarrow>
                     (case set_prop (runtimes s2 r) v p (plus_val old w) of
                        Inl err \<Rightarrow> Some (Inl err, i2, s2)
                      | Inr rt \<Rightarrow> Some (Inr (plus_val old w), i2, set_runtime r rt s2)))
             = Some (res, i', s')" by simp
        then have "R i1 s1 i' s'"
        proof (elim seqE)
          fix err i2 s2
          assume "eval rq op r e' i1 s1 = Some (Inl err, i2, s2)" "(res, i', s') = (Inl err, i2, s2)"
          then show ?thesis using ev by auto
        next
          fix w i2 s2
          assume c: "eval rq op r e' i1 s1 = Some (Inr w, i2, s2)"
            and d: "(case set_prop (runtimes s2 r) v p (plus_val old w) of
                        Inl err \<Rightarrow> Some (Inl err, i2, s2)
                      | Inr rt \<Rightarrow> Some (Inr (plus_val old w), i2, set_runtime r rt s2))
                    = Some (res, i', s')"
          from c have "R i1 s1 i2 s2" by (rule ev)
          moreover from d have "R i2 s2 i' s'"
            using set_ok R_refl by (auto split: sum.splits)
          ultimately show ?thesis by (rule R_trans)
        qed
        with 1 show ?thesis by (rule R_trans)
      qed
    qed
  next
    case (SThrow msg)
    then show ?case by (auto intro: R_refl)
  next
    case (SSeq p q)
    from SSeq.prems [unfolded exec.simps] show ?case
      by (elim seqE) (use SSeq.IH R_trans in blast)+
  next
    case (STry p q)
    from STry.prems show ?case
      using STry.IH R_trans by (auto split: option.splits sum.splits) blast
  }
qed


lemma requireFile_Suc:
  "requireFile (Suc n) c i name s =
     (case cached_program c (entered_ctx c i name) (pwd i) name (Resolve c (pwd i) name)
             (entered_store i s) of
        (Inl err, s2) \<Rightarrow> Some (Inl err, i, restored i s s2)
      | (Inr p, s2) \<Rightarrow>
          (case runtime_RunProgram (Require_via (requireFile n c) c) (Open c) (runtime i) (pgm p)
                  (entered_ctx c i name) (emit (RunCall (Resolve c (pwd i) name)) s2) of
             None \<Rightarrow> None
           | Some (Inl err, i2, s3) \<Rightarrow> Some (Inl err, i2\<lparr>pwd := pwd i\<rparr>, restored i s s3)
           | Some (Inr v, i2, s3) \<Rightarrow>
               Some (Inr (object_Get (runtimes s3 (runtime i)) (module_ref i s) ''exports''),
                     i2\<lparr>pwd := pwd i\<rparr>, restored i s s3)))"
  by (simp add: Let_def deferred_def entered_ctx_def entered_store_def restored_def module_ref_def
      split: prod.splits sum.splits option.splits)


declare requireFile.simps(2) [simp del]

lemma requireFile_SucE:
  assumes "requireFile (Suc n) c i name s = Some (res, i', s')"
  obtains
    (not_compiled) err s2 where
      "cached_program c (entered_ctx c i name) (pwd i) name (Resolve c (pwd i) name)
         (entered_store i s) = (Inl err, s2)"
      "res = Inl err" "i' = i" "s' = restored i s s2"
  | (thrown) p s2 err i2 s3 where
      "cached_program c (entered_ctx c i name) (pwd i) name (Resolve c (pwd i) name)
         (entered_store i s) = (Inr p, s2)"
      "exec (Require_via (requireFile n c) c) (Open c) (runtime i) (pgm p)
         (entered_ctx c i name) (emit (RunCall (Resolve c (pwd i) name)) s2) = Some (Inl err, i2, s3)"
      "res = Inl err" "i' = i2\<lparr>pwd := pwd i\<rparr>" "s' = restored i s s3"
  | (returned) p s2 v i2 s3 where
      "cached_program c (entered_ctx c i name) (pwd i) name (Resolve c (pwd i) name)
         (entered_store i s) = (Inr p, s2)"
      "exec (Require_via (requireFile n c) c) (Open c) (runtime i) (pgm p)
         (entered_ctx c i name) (emit (RunCall (Resolve c (pwd i) name)) s2) = Some (Inr v, i2, s3)"
      "res = Inr (object_Get (runtimes s3 (runtime i)) (module_ref i s) ''exports'')"
      "i' = i2\<lparr>pwd := pwd i\<rparr>" "s' = restored i s s3"
  using assms unfolding requireFile_Suc runtime_RunProgram_def
  by (auto split: prod.splits sum.splits option.splits)

lemma module_scope_length:
  "length (objects (runtimes s r)) \<le> length (objects (snd (snd (module_scope (runtimes s r)))))"
  by (simp add: module_scope_eq)

lemma requireModule_frame:
  assumes R_refl: "\<And>i s. R i s i s"
    and R_rt: "\<And>r i s rt. length (objects (runtimes s r)) \<le> length (objects rt) \<Longrightarrow>
                 R i s i (set_runtime r rt s)"
  shows "requireModule c i name s = (res, s1) \<Longrightarrow> R i s i s1"
  by (auto simp: requireModule_def runtime_ToValue_def split: option.splits intro!: R_refl R_rt)

lemma requireFile_frame:
  assumes R_refl: "\<And>i s. R i s i s"
    and R_trans: "\<And>i s i1 s1 i2 s2. R i s i1 s1 \<Longrightarrow> R i1 s1 i2 s2 \<Longrightarrow> R i s i2 s2"
    and R_rt: "\<And>r i s rt. length (objects (runtimes s r)) \<le> length (objects rt) \<Longrightarrow>
                 R i s i (set_runtime r rt s)"
    and R_pwd: "\<And>i s d. R i s (i\<lparr>pwd := d\<rparr>) s"
    and R_cached: "\<And>i q name s res s1.
                 cached_program c i q name (Resolve c q name) s = (res, s1) \<Longrightarrow> R i s i s1"
    and R_run: "\<And>i s P. R i s i (emit (RunCall P) s)"
    and R_open: "\<And>i name s res s1. Open c i name s = (res, s1) \<Longrightarrow> R i s i s1"
  shows "requireFile n c i name s = Some (res, i', s') \<Longrightarrow> R i s i' s'"
proof (induction n arbitrary: i name s res i' s')
  case 0
  then show ?case by simp
next
  case (Suc n)
  have rq: "R j t j1 t1" if "Require_via (requireFile n c) c j arg t = Some (out, j1, t1)"
    for j arg t out j1 t1
  proof (cases "arg = ''k6'' \<or> prefix ''k6/'' arg")
    case True
    with that obtain "requireModule c j arg t = (out, t1)" and "j1 = j"
      by (auto simp: Require_via_def split: prod.splits)
    then show ?thesis using requireModule_frame [of R c j arg t out t1] R_refl R_rt by simp
  next
    case False
    with that have "requireFile n c j arg t = Some (out, j1, t1)"
      by (simp add: Require_via_def)
    then show ?thesis by (rule Suc.IH)
  qed
  have run: "R j t j1 t1"
    if "exec (Require_via (requireFile n c) c) (Open c) (runtime i) p j t = Some (out, j1, t1)"
    for p j t out j1 t1
    using R_refl R_trans R_rt rq R_open that by (rule exec_frame)
  let ?i1 = "entered_ctx c i name"
  let ?s1 = "entered_store i s"
  have enter: "R i s ?i1 ?s1"
  proof -
    have "R i s ?i1 s" unfolding entered_ctx_def by (rule R_pwd)
    moreover have "R ?i1 s ?i1 ?s1"
      unfolding entered_store_def by (rule R_rt) (rule module_scope_length)
    ultimately show ?thesis by (rule R_trans)
  qed
  have leave: "R j t (j\<lparr>pwd := pwd i\<rparr>) (restored i s t)" for j t
  proof -
    have "R j t j (restored i s t)"
      unfolding restored_def by (rule R_rt) (simp add: runtime_Set_def)
    moreover have "R j (restored i s t) (j\<lparr>pwd := pwd i\<rparr>) (restored i s t)" by (rule R_pwd)
    ultimately show ?thesis by (rule R_trans)
  qed
  from Suc.prems show ?case
  proof (cases rule: requireFile_SucE)
    case (not_compiled err s2)
    have "R ?i1 ?s1 ?i1 s2" using not_compiled(1) by (rule R_cached)
    with enter have "R i s ?i1 s2" by (rule R_trans)
    moreover have "R ?i1 s2 (?i1\<lparr>pwd := pwd i\<rparr>) (restored i s s2)" by (rule leave)
    moreover have "?i1\<lparr>pwd := pwd i\<rparr> = i" by (simp add: entered_ctx_def)
    ultimately show ?thesis using not_compiled R_trans by metis
  next
    case (thrown p s2 err i2 s3)
    have "R ?i1 ?s1 ?i1 s2" using thrown(1) by (rule R_cached)
    with enter have "R i s ?i1 s2" by (rule R_trans)
    moreover have "R ?i1 s2 ?i1 (emit (RunCall (Resolve c (pwd i) name)) s2)" by (rule R_run)
    moreover have "R ?i1 (emit (RunCall (Resolve c (pwd i) name)) s2) i2 s3"
      using thrown(2) by (rule run)
    moreover have "R i2 s3 i' s'" unfolding thrown by (rule leave)
    ultimately show ?thesis using R_trans by blast
  next
    case (returned p s2 v i2 s3)
    have "R ?i1 ?s1 ?i1 s2" using returned(1) by (rule R_cached)
    with enter have "R i s ?i1 s2" by (rule R_trans)
    moreover have "R ?i1 s2 ?i1 (emit (RunCall (Resolve c (pwd i) name)) s2)" by (rule R_run)
    moreover have "R ?i1 (emit (RunCall (Resolve c (pwd i) name)) s2) i2 s3"
      using returned(2) by (rule run)
    moreover have "R i2 s3 i' s'" unfolding returned by (rule leave)
    ultimately show ?thesis using R_trans by blast
  qed
qed


subsection \<open>Caches, heaps and the trace only grow; a cached module is reused\<close>

lemma same_ctx_refl: "same_ctx i i"
  by (simp add: same_ctx_def)

lemma same_ctx_trans: "same_ctx i i1 \<Longrightarrow> same_ctx i1 i2 \<Longrightarrow> same_ctx i i2"
  unfolding same_ctx_def by (cases i, cases i1, cases i2) auto

lemma same_ctx_pwd: "same_ctx i (i\<lparr>pwd := d\<rparr>)"
  by (simp add: same_ctx_def)

lemma same_ctx_fields:
  "same_ctx i i' \<Longrightarrow> runtime i' = runtime i \<and> programs i' = programs i \<and> files i' = files i
     \<and> fs i' = fs i \<and> ctxPtr i' = ctxPtr i \<and> Console i' = Console i"
  unfolding same_ctx_def by (cases i, cases i') auto

lemma same_ctx_eq: "same_ctx i i' \<Longrightarrow> pwd i' = pwd i \<Longrightarrow> i' = i"
  unfolding same_ctx_def by (cases i, cases i') auto

lemma cached_program_cases:
  assumes "cached_program c i q name P s = (res, s1)"
  obtains
    (hit) v where "program_maps s (programs i) P = Some v" "res = Inr v" "s1 = s"
  | (failed) err es where "program_maps s (programs i) P = None" "res = Inl err"
      "s1 = s\<lparr>trace := trace s @ es\<rparr>"
      "set es \<subseteq> {RequireLoad P, TransformCall P, CompileCall P}" "es \<noteq> []"
  | (compiled) v where "program_maps s (programs i) P = None" "res = Inr v"
      "s1 = s\<lparr>trace := trace s @ [RequireLoad P, TransformCall P, CompileCall P],
              program_maps := (program_maps s)
                (programs i := (program_maps s (programs i))(P \<mapsto> v))\<rparr>"
proof (cases "program_maps s (programs i) P")
  case (Some v)
  from assms have "res = Inr v" "s1 = s" by (simp_all add: cached_program_def Some)
  with Some show ?thesis by (rule hit)
next
  case None
  note miss = None
  show ?thesis
  proof (cases "Load c (fs i) q name")
    case (Inl e)
    with assms miss have "res = Inl (LoadError e)" "s1 = s\<lparr>trace := trace s @ [RequireLoad P]\<rparr>"
      by (simp_all add: cached_program_def Let_def emit_def)
    with miss show ?thesis by (rule failed) simp_all
  next
    case (Inr d)
    note load = Inr
    show ?thesis
    proof (cases "Transform c (Data d) (Filename d)")
      case (Inl e)
      with assms miss load have "res = Inl (TransformError e)"
        "s1 = s\<lparr>trace := trace s @ [RequireLoad P, TransformCall P]\<rparr>"
        by (simp_all add: cached_program_def Let_def emit_def)
      with miss show ?thesis by (rule failed) simp_all
    next
      case (Inr t)
      note transform = Inr
      show ?thesis
      proof (cases "Compile c (Filename d) t True")
        case (Inl e)
        with assms miss load transform have "res = Inl (CompileError e)"
          "s1 = s\<lparr>trace := trace s @ [RequireLoad P, TransformCall P, CompileCall P]\<rparr>"
          by (simp_all add: cached_program_def Let_def emit_def)
        with miss show ?thesis by (rule failed) simp_all
      next
        case (Inr g)
        with assms miss load transform have "res = Inr \<lparr>pgm = g, src = t\<rparr>"
          "s1 = s\<lparr>trace := trace s @ [RequireLoad P, TransformCall P, CompileCall P],
              program_maps := (program_maps s)
                (programs i := (program_maps s (programs i))(P \<mapsto> \<lparr>pgm = g, src = t\<rparr>))\<rparr>"
          by (simp_all add: cached_program_def Let_def emit_def)
        with miss show ?thesis by (rule compiled)
      qed
    qed
  qed
qed


lemma cached_program_grows:
  assumes "cached_program c i q name P s = (res, s1)"
  shows "grows i s i s1"
  using assms by (cases rule: cached_program_cases) (auto simp: grows_def same_ctx_refl)

lemma Open_grows: "Open c i name s = (res, s1) \<Longrightarrow> grows i s i s1"
  by (auto simp: Open_def Let_def grows_def same_ctx_refl split: option.splits sum.splits)

lemma grows_trans: "grows i s i1 s1 \<Longrightarrow> grows i1 s1 i2 s2 \<Longrightarrow> grows i s i2 s2"
  unfolding grows_def
  by (meson same_ctx_trans prefix_order.order_trans order_trans)

lemma requireFile_grows:
  "requireFile n c i name s = Some (res, i', s') \<Longrightarrow> grows i s i' s'"
proof (rule requireFile_frame [where R = grows])
  show "grows i s i s" for i s by (simp add: grows_def same_ctx_refl)
  show "grows i s i1 s1 \<Longrightarrow> grows i1 s1 i2 s2 \<Longrightarrow> grows i s i2 s2" for i s i1 s1 i2 s2
    by (rule grows_trans)
  show "length (objects (runtimes s r)) \<le> length (objects rt) \<Longrightarrow> grows i s i (set_runtime r rt s)"
    for r i s rt by (simp add: grows_def same_ctx_refl)
  show "grows i s (i\<lparr>pwd := d\<rparr>) s" for i s d by (simp add: grows_def same_ctx_pwd)
  show "cached_program c i q name (Resolve c q name) s = (res, s1) \<Longrightarrow> grows i s i s1"
    for i q name s res s1 by (rule cached_program_grows)
  show "grows i s i (emit (RunCall P) s)" for i s P by (simp add: grows_def same_ctx_refl)
  show "Open c i name s = (res, s1) \<Longrightarrow> grows i s i s1" for i name s res s1
    by (rule Open_grows)
qed

lemma pipeline_calls_simps [simp]:
  "pipeline_calls P (set_runtime r rt s) = pipeline_calls P s"
  "pipeline_calls P (emit e s) = pipeline_calls P s @ (if pipeline_event P e then [e] else [])"
  by (simp_all add: pipeline_calls_def)

lemma cached_program_reuses:
  assumes "cached_program c i q name (Resolve c q name) s = (res, s1)"
  shows "reuses a P i s i s1"
  using assms
proof (cases rule: cached_program_cases)
  case (hit v)
  then show ?thesis by (simp add: reuses_def same_ctx_refl)
next
  case (failed err es)
  have "filter (pipeline_event P) es = []" if "program_maps s (programs i) P \<noteq> None"
    using that failed(1,4) by (auto simp: filter_empty_conv pipeline_event_def)
  with failed show ?thesis
    by (auto simp: reuses_def same_ctx_refl pipeline_calls_def)
next
  case (compiled v)
  have "Resolve c q name \<noteq> P" if "program_maps s (programs i) P \<noteq> None"
    using that compiled(1) by auto
  with compiled show ?thesis
    by (auto simp: reuses_def same_ctx_refl pipeline_calls_def pipeline_event_def)
qed

lemma Open_reuses: "Open c i name s = (res, s1) \<Longrightarrow> reuses a P i s i s1"
  by (auto simp: Open_def Let_def reuses_def same_ctx_refl pipeline_calls_def pipeline_event_def
      split: option.splits sum.splits)

lemma reuses_trans:
  assumes "reuses a P i s i1 s1" and "reuses a P i1 s1 i2 s2"
  shows "reuses a P i s i2 s2"
proof -
  from assms have ctx: "same_ctx i i1" "same_ctx i1 i2" by (simp_all add: reuses_def)
  then have "same_ctx i i2" by (rule same_ctx_trans)
  moreover from ctx(1) have "programs i1 = programs i" by (simp add: same_ctx_fields)
  ultimately show ?thesis using assms by (simp add: reuses_def)
qed

lemma requireFile_reuses:
  "requireFile n c i name s = Some (res, i', s') \<Longrightarrow> reuses a P i s i' s'"
proof (rule requireFile_frame [where R = "reuses a P"])
  show "reuses a P i s i s" for i s by (simp add: reuses_def same_ctx_refl)
  show "reuses a P i s i1 s1 \<Longrightarrow> reuses a P i1 s1 i2 s2 \<Longrightarrow> reuses a P i s i2 s2"
    for i s i1 s1 i2 s2 by (rule reuses_trans)
  show "length (objects (runtimes s r)) \<le> length (objects rt) \<Longrightarrow>
        reuses a P i s i (set_runtime r rt s)"
    for r i s rt by (simp add: reuses_def same_ctx_refl)
  show "reuses a P i s (i\<lparr>pwd := d\<rparr>) s" for i s d by (simp add: reuses_def same_ctx_pwd)
  show "cached_program c i q name (Resolve c q name) s = (res, s1) \<Longrightarrow> reuses a P i s i s1"
    for i q name s res s1 by (rule cached_program_reuses)
  show "reuses a P i s i (emit (RunCall Q) s)" for i s Q
    by (simp add: reuses_def same_ctx_refl pipeline_event_def)
  show "Open c i name s = (res, s1) \<Longrightarrow> reuses a P i s i s1" for i name s res s1
    by (rule Open_reuses)
qed

lemma Require_file:
  "\<not> builtin_name arg \<Longrightarrow> Require n c i arg s = requireFile n c i arg s"
  by (simp add: Require_def Require_via_def builtin_name_def)

lemma Require_builtin:
  "builtin_name arg \<Longrightarrow>
   Require n c i arg s = Some (fst (requireModule c i arg s), i, snd (requireModule c i arg s))"
  by (simp add: Require_def Require_via_def builtin_name_def split: prod.splits)

lemma Require_reuses:
  assumes "Require n c i arg s = Some (res, i', s')"
  shows "reuses a P i s i' s'"
proof (cases "builtin_name arg")
  case True
  with assms have "requireModule c i arg s = (res, s')" and "i' = i"
    by (auto simp: Require_builtin)
  then show ?thesis
    by (auto simp: requireModule_def runtime_ToValue_def reuses_def same_ctx_refl
        split: option.splits)
next
  case False
  with assms show ?thesis by (simp add: Require_file requireFile_reuses)
qed

lemma exec_reuses:
  assumes "exec (Require_via (requireFile n c) c) (Open c) r p i s = Some (res, i', s')"
  shows "reuses a P i s i' s'"
proof (rule exec_frame [where R = "reuses a P", OF _ _ _ _ _ assms])
  show "reuses a P i s i s" for i s by (simp add: reuses_def same_ctx_refl)
  show "reuses a P i s i1 s1 \<Longrightarrow> reuses a P i1 s1 i2 s2 \<Longrightarrow> reuses a P i s i2 s2"
    for i s i1 s1 i2 s2 by (rule reuses_trans)
  show "length (objects (runtimes s r)) \<le> length (objects rt) \<Longrightarrow>
        reuses a P i s i (set_runtime r rt s)"
    for i s rt by (simp add: reuses_def same_ctx_refl)
  show "Require_via (requireFile n c) c i name s = Some (res, i1, s1) \<Longrightarrow> reuses a P i s i1 s1"
    for i name s res i1 s1 using Require_reuses [of n c i name s res i1 s1 a P]
    by (simp add: Require_def)
  show "Open c i name s = (res, s1) \<Longrightarrow> reuses a P i s i s1" for i name s res s1
    by (rule Open_reuses)
qed

lemma cached_program_miss:
  assumes "program_maps s (programs i) P = None"
    and "Load c (fs i) q name = Inr d"
    and "Transform c (Data d) (Filename d) = Inr t"
    and "Compile c (Filename d) t True = Inr g"
  shows "cached_program c i q name P s =
           (Inr \<lparr>pgm = g, src = t\<rparr>,
            s\<lparr>trace := trace s @ [RequireLoad P, TransformCall P, CompileCall P],
              program_maps := (program_maps s)
                (programs i := (program_maps s (programs i))(P \<mapsto> \<lparr>pgm = g, src = t\<rparr>))\<rparr>)"
  using assms by (simp add: cached_program_def Let_def emit_def)

lemma cached_program_hit:
  "program_maps s (programs i) P = Some v \<Longrightarrow> cached_program c i q name P s = (Inr v, s)"
  by (simp add: cached_program_def)

lemma entered_simps [simp]:
  "program_maps (entered_store i s) = program_maps s"
  "file_maps (entered_store i s) = file_maps s"
  "trace (entered_store i s) = trace s"
  "programs (entered_ctx c i name) = programs i"
  "files (entered_ctx c i name) = files i"
  "fs (entered_ctx c i name) = fs i"
  "runtime (entered_ctx c i name) = runtime i"
  "pwd (entered_ctx c i name) = Dir c (Resolve c (pwd i) name)"
  by (simp_all add: entered_store_def entered_ctx_def)

lemma restored_simps [simp]:
  "program_maps (restored i s t) = program_maps t"
  "file_maps (restored i s t) = file_maps t"
  "trace (restored i s t) = trace t"
  "pipeline_calls P (restored i s t) = pipeline_calls P t"
  by (simp_all add: restored_def)

subsection \<open>Evaluating the small installation\<close>

lemmas demo_defs = demo_def demo_Resolve_def demo_Dir_def demo_Load_def demo_Compile_def demo_fs_def
  demo_store_def demo_base_def lib_js_def main_js_def outer_js_def inner_js_def probe_js_def
  demo_Transform_def warm_store_def deleted_ctx_def host_store_def

lemmas run_defs = Require_def Require_via_def Let_def module_scope_eq cached_program_def
  runtime_RunProgram_def deferred_def runtime_Get_def runtime_Set_def runtime_NewObject_def
  runtime_ToValue_def object_Get_def object_Set_def get_prop_def set_prop_def set_runtime_def
  emit_def plus_val_def requireModule_def Open_def UnknownBuiltinModule_def requireFile.simps(2)
  to_value_def

text \<open>The base context and the empty store are what \<open>NewInitContext\<close> makes.\<close>

lemma demo_base_NewInitContext:
  "NewInitContext 0 0 (Some demo_fs) ''/t'' (demo_store\<lparr>next_ref := 0\<rparr>) = (demo_base, demo_store)"
  by (simp add: NewInitContext_def demo_base_def demo_store_def fun_eq_iff)

lemma SomeE3:
  assumes "x \<noteq> None"
  obtains res i s where "x = Some (res, i, s)"
  using assms by (cases x) auto

text \<open>A context made by \<open>newBoundInitContext\<close> holds the references of its base to the two
  caches and the console and the directory of its base, and it has no file system.\<close>

lemma newBoundInitContext_fields:
  "programs (newBoundInitContext base cp rt) = programs base"
  "files (newBoundInitContext base cp rt) = files base"
  "Console (newBoundInitContext base cp rt) = Console base"
  "pwd (newBoundInitContext base cp rt) = pwd base"
  "fs (newBoundInitContext base cp rt) = None"
  "runtime (newBoundInitContext base cp rt) = rt"
  "ctxPtr (newBoundInitContext base cp rt) = cp"
  by (simp_all add: newBoundInitContext_def)

section \<open>The claims\<close>

text \<open>
  C1. Two \<open>Require\<close> calls whose file specifiers resolve to the same canonical path \<open>P\<close>,
  made through contexts that share the program cache: when \<open>P\<close> is not yet in the cache and
  the first call loads, transforms and compiles it, the three pipeline calls for \<open>P\<close> are made
  once, by the first call (whatever the module's code and the modules it requires do, and
  whether or not its execution fails); the second call makes none, finds the compiled module
  in the cache, and the cache holds the same compiled module after both calls.
\<close>

theorem compile_once:
  assumes file1: "\<not> builtin_name name1" and file2: "\<not> builtin_name name2"
    and same1: "Resolve c (pwd i) name1 = P" and same2: "Resolve c (pwd j) name2 = P"
    and shared: "programs j = programs i"
    and miss: "program_maps s (programs i) P = None"
    and loaded: "Load c (fs i) (pwd i) name1 = Inr d"
    and transformed: "Transform c (Data d) (Filename d) = Inr t"
    and compiled: "Compile c (Filename d) t True = Inr g"
    and first: "Require n1 c i name1 s = Some (res1, i1, s1)"
    and second: "Require n2 c j name2 s1 = Some (res2, j2, s2)"
  shows "pipeline_calls P s1 = pipeline_calls P s @ [RequireLoad P, TransformCall P, CompileCall P]
       \<and> pipeline_calls P s2 = pipeline_calls P s1
       \<and> program_maps s1 (programs i) P = Some \<lparr>pgm = g, src = t\<rparr>
       \<and> program_maps s2 (programs i) P = Some \<lparr>pgm = g, src = t\<rparr>
       \<and> cached_program c (entered_ctx c j name2) (pwd j) name2 (Resolve c (pwd j) name2)
             (entered_store j s1)
           = (Inr \<lparr>pgm = g, src = t\<rparr>, entered_store j s1)"
proof -
  let ?v = "\<lparr>pgm = g, src = t\<rparr>"
  let ?a = "programs i"
  from first file1 have rf: "requireFile n1 c i name1 s = Some (res1, i1, s1)"
    by (simp add: Require_file)
  then obtain m where n1: "n1 = Suc m" by (cases n1) auto
  define s0 where "s0 = entered_store i s"
  define sc where "sc = s0\<lparr>trace := trace s0 @ [RequireLoad P, TransformCall P, CompileCall P],
              program_maps := (program_maps s0)(?a := (program_maps s0 ?a)(P \<mapsto> ?v))\<rparr>"
  have cp: "cached_program c (entered_ctx c i name1) (pwd i) name1 (Resolve c (pwd i) name1)
              (entered_store i s) = (Inr ?v, sc)"
    using cached_program_miss [of "entered_store i s" "entered_ctx c i name1" P c "pwd i" name1 d t g]
      miss loaded transformed compiled
    by (simp add: same1 sc_def s0_def)
  have sc_calls: "pipeline_calls P sc = pipeline_calls P s @ [RequireLoad P, TransformCall P, CompileCall P]"
    by (simp add: sc_def s0_def pipeline_calls_def pipeline_event_def)
  have sc_map: "program_maps sc ?a P = Some ?v" by (simp add: sc_def)
  have after_run: "program_maps s3 ?a P = Some ?v \<and> pipeline_calls P s3 = pipeline_calls P sc"
    if "exec (Require_via (requireFile m c) c) (Open c) (runtime i) (pgm ?v)
          (entered_ctx c i name1) (emit (RunCall P) sc) = Some (out, i2, s3)" for out i2 s3
  proof -
    from that have "reuses ?a P (entered_ctx c i name1) (emit (RunCall P) sc) i2 s3"
      by (rule exec_reuses)
    then show ?thesis using sc_map by (simp add: reuses_def pipeline_event_def)
  qed
  from rf [unfolded n1] have 1: "program_maps s1 ?a P = Some ?v \<and> pipeline_calls P s1 = pipeline_calls P sc"
  proof (cases rule: requireFile_SucE)
    case (not_compiled err s2)
    with cp show ?thesis by simp
  next
    case (thrown p s2 err i2 s3)
    from cp thrown(1) have "p = ?v" "s2 = sc" by simp_all
    with thrown(2) have "exec (Require_via (requireFile m c) c) (Open c) (runtime i) (pgm ?v)
          (entered_ctx c i name1) (emit (RunCall P) sc) = Some (Inl err, i2, s3)"
      by (simp add: same1)
    from after_run [OF this] thrown(5) show ?thesis by simp
  next
    case (returned p s2 v i2 s3)
    from cp returned(1) have "p = ?v" "s2 = sc" by simp_all
    with returned(2) have "exec (Require_via (requireFile m c) c) (Open c) (runtime i) (pgm ?v)
          (entered_ctx c i name1) (emit (RunCall P) sc) = Some (Inr v, i2, s3)"
      by (simp add: same1)
    from after_run [OF this] returned(5) show ?thesis by simp
  qed
  from second have "reuses ?a P j s1 j2 s2" by (rule Require_reuses)
  with 1 shared have 2: "program_maps s2 ?a P = Some ?v \<and> pipeline_calls P s2 = pipeline_calls P s1"
    by (simp add: reuses_def)
  have 3: "cached_program c (entered_ctx c j name2) (pwd j) name2 (Resolve c (pwd j) name2)
             (entered_store j s1)
           = (Inr ?v, entered_store j s1)"
    unfolding same2 by (rule cached_program_hit) (use 1 shared in simp)
  from 1 2 3 sc_calls show ?thesis by simp
qed


theorem compile_once_witness:
  "\<exists>res1 i1 s1 res2 j2 s2.
     Require 1 demo demo_base ''./lib.js'' demo_store = Some (res1, i1, s1) \<and>
     Require 1 demo demo_base ''lib.js'' s1 = Some (res2, j2, s2) \<and>
     pipeline_calls ''/t/lib.js'' s2 =
       [RequireLoad ''/t/lib.js'', TransformCall ''/t/lib.js'', CompileCall ''/t/lib.js''] \<and>
     program_maps s2 0 ''/t/lib.js'' = Some \<lparr>pgm = lib_js, src = ''lib''\<rparr>"
proof -
  let ?first = "Require 1 demo demo_base ''./lib.js'' demo_store"
  have "?first \<noteq> None" by (simp add: run_defs demo_defs)
  then obtain res1 i1 s1 where first: "?first = Some (res1, i1, s1)" by (rule SomeE3)
  have "Require 1 demo demo_base ''lib.js'' (snd (snd (the ?first))) \<noteq> None"
    by (simp add: run_defs demo_defs)
  with first have "Require 1 demo demo_base ''lib.js'' s1 \<noteq> None" by simp
  then obtain res2 j2 s2 where second: "Require 1 demo demo_base ''lib.js'' s1 = Some (res2, j2, s2)"
    by (rule SomeE3)
  have "pipeline_calls ''/t/lib.js'' s1 = pipeline_calls ''/t/lib.js'' demo_store @
          [RequireLoad ''/t/lib.js'', TransformCall ''/t/lib.js'', CompileCall ''/t/lib.js'']
       \<and> pipeline_calls ''/t/lib.js'' s2 = pipeline_calls ''/t/lib.js'' s1
       \<and> program_maps s1 (programs demo_base) ''/t/lib.js'' = Some \<lparr>pgm = lib_js, src = ''lib''\<rparr>
       \<and> program_maps s2 (programs demo_base) ''/t/lib.js'' = Some \<lparr>pgm = lib_js, src = ''lib''\<rparr>
       \<and> cached_program demo (entered_ctx demo demo_base ''lib.js'') (pwd demo_base) ''lib.js''
             (Resolve demo (pwd demo_base) ''lib.js'') (entered_store demo_base s1)
           = (Inr \<lparr>pgm = lib_js, src = ''lib''\<rparr>, entered_store demo_base s1)"
    by (rule compile_once [where d = "\<lparr>Data = ''lib'', Filename = ''/t/lib.js''\<rparr>", OF _ _ _ _ _ _ _ _ _ first second])
       (simp_all add: builtin_name_def demo_defs)
  with first second show ?thesis
    by (simp add: pipeline_calls_def demo_store_def demo_base_def)
qed

lemma requireFile_ctx:
  assumes "requireFile n c i arg s = Some (res, i', s')"
  shows "i' = i"
proof -
  from assms have "grows i s i' s'" by (rule requireFile_grows)
  then have same: "same_ctx i i'" by (simp add: grows_def)
  from assms obtain m where "n = Suc m" by (cases n) auto
  with assms have "requireFile (Suc m) c i arg s = Some (res, i', s')" by simp
  then have "pwd i' = pwd i" by (cases rule: requireFile_SucE) simp_all
  with same show ?thesis by (rule same_ctx_eq)
qed

lemma Require_ctx:
  assumes "Require n c i arg s = Some (res, i', s')"
  shows "i' = i"
proof (cases "builtin_name arg")
  case True
  with assms show ?thesis by (simp add: Require_builtin)
next
  case False
  with assms have "requireFile n c i arg s = Some (res, i', s')" by (simp add: Require_file)
  then show ?thesis by (rule requireFile_ctx)
qed

lemma exec_ctx:
  assumes "exec (Require n c) (Open c) r p i s = Some (res, i', s')"
  shows "i' = i"
proof (rule exec_frame [where R = "\<lambda>i s i' s'. i' = i", OF _ _ _ _ _ assms])
  show "Require n c i name s = Some (res, i1, s1) \<Longrightarrow> i1 = i" for i name s res i1 s1
    by (rule Require_ctx)
qed simp_all

text \<open>
  C2. Whenever a \<open>Require\<close> call returns, with a value or with an error of any kind and at
  any depth of nesting, \<open>pwd\<close> is what it was before the call; and whenever a program returns,
  whatever sequence of \<open>require\<close> calls it has made, failed ones that it caught included,
  \<open>pwd\<close> is what it was when the program started.
\<close>

theorem pwd_restored:
  "(Require n c i arg s = Some (res, i', s') \<longrightarrow> pwd i' = pwd i)
   \<and> (runtime_RunProgram (Require n c) (Open c) r p i s = Some (res, i', s') \<longrightarrow> pwd i' = pwd i)"
  using Require_ctx [of n c i arg s res i' s'] exec_ctx [of n c r p i s res i' s']
  by (auto simp: runtime_RunProgram_def)

theorem pwd_restored_witness:
  "(\<exists>i' s'. Require 2 demo demo_base ''./outer.js'' demo_store = Some (Inl (Exception ''boom''), i', s')
      \<and> pwd i' = ''/t'')
   \<and> (\<exists>res i' s'. runtime_RunProgram (Require 1 demo) (Open demo) 0
          (STry (SExpr (ERequire ''./sub/inner.js'')) (SExpr (ERequire ''./lib.js'')))
          demo_base demo_store = Some (res, i', s')
      \<and> pwd i' = ''/t'')"
proof -
  let ?call = "Require 2 demo demo_base ''./outer.js'' demo_store"
  have "map_option fst ?call = Some (Inl (Exception ''boom''))"
    by (simp add: run_defs demo_defs numeral_2_eq_2)
  then obtain i' s' where call: "?call = Some (Inl (Exception ''boom''), i', s')" by auto
  from pwd_restored [of 2 demo demo_base "''./outer.js''" demo_store "Inl (Exception ''boom'')" i' s']
    call
  have "pwd i' = ''/t''" by (simp add: demo_base_def)
  with call have 1: "\<exists>i' s'. ?call = Some (Inl (Exception ''boom''), i', s') \<and> pwd i' = ''/t''"
    by blast
  let ?run = "runtime_RunProgram (Require 1 demo) (Open demo) 0
          (STry (SExpr (ERequire ''./sub/inner.js'')) (SExpr (ERequire ''./lib.js'')))
          demo_base demo_store"
  have "?run \<noteq> None" by (simp add: run_defs demo_defs)
  then obtain res j' t' where run: "?run = Some (res, j', t')" by (rule SomeE3)
  from pwd_restored [where n = 1 and c = demo and r = 0 and i = demo_base and s = demo_store
      and res = res and i' = j' and s' = t', THEN conjunct2] run
  have "pwd j' = ''/t''" by (simp add: demo_base_def)
  with run have "\<exists>res i' s'. ?run = Some (res, i', s') \<and> pwd i' = ''/t''" by blast
  with 1 show ?thesis by blast
qed

text \<open>
  C5. \<open>Require\<close> of a reserved name that is not in the registry fails with the error
  \<open>unknown builtin module\<close>, and leaves the context and the whole store, so both caches, as
  they were.
\<close>

theorem unknown_builtin:
  "builtin_name arg \<Longrightarrow> Index c arg = None \<Longrightarrow>
   Require n c i arg s = Some (Inl (UnknownBuiltinModule arg), i, s)"
  by (simp add: Require_builtin requireModule_def)

theorem unknown_builtin_witness:
  "Require 0 demo demo_base ''k6/doesnotexist'' demo_store =
     Some (Inl (ErrorString ''unknown builtin module: k6/doesnotexist''), demo_base, demo_store)"
  using unknown_builtin [of "''k6/doesnotexist''" demo 0 demo_base demo_store]
  by (simp add: builtin_name_def demo_def UnknownBuiltinModule_def)

lemma requireModule_cases:
  obtains (unknown) "Index c arg = None" "requireModule c i arg s = (Inl (UnknownBuiltinModule arg), s)"
  | (bound) m where "Index c arg = Some m"
      "requireModule c i arg s =
         (Inr (Ref (length (objects (runtimes s (runtime i))))),
          set_runtime (runtime i)
            ((runtimes s (runtime i))\<lparr>objects := objects (runtimes s (runtime i)) @
                [Bind c (runtime i) m (ctxPtr i)]\<rparr>) s)"
  by (cases "Index c arg") (simp_all add: requireModule_def runtime_ToValue_def)

text \<open>
  C10. \<open>Require\<close> of a reserved name returns, whether the name is registered or not, with
  the context (so \<open>pwd\<close>), the global bindings of the runtime (so \<open>exports\<close> and
  \<open>module\<close>), both caches and the trace of collaborator calls as they were; a registered
  module is bound to a new object of the runtime.
\<close>

theorem builtin_frame:
  "builtin_name arg \<Longrightarrow>
   \<exists>res s'. Require n c i arg s = Some (res, i, s') \<and>
     program_maps s' = program_maps s \<and> file_maps s' = file_maps s \<and>
     globals (runtimes s' (runtime i)) = globals (runtimes s (runtime i)) \<and>
     trace s' = trace s \<and>
     (case Index c arg of
        None \<Rightarrow> res = Inl (UnknownBuiltinModule arg) \<and> s' = s
      | Some m \<Rightarrow> res = Inr (Ref (length (objects (runtimes s (runtime i))))))"
proof -
  assume b: "builtin_name arg"
  show ?thesis
  proof (cases rule: requireModule_cases [of c arg i s])
    case unknown
    with b show ?thesis by (simp add: Require_builtin)
  next
    case (bound m)
    with b show ?thesis by (simp add: Require_builtin)
  qed
qed

theorem builtin_frame_witness:
  "\<exists>s'. Require 0 demo demo_base ''k6'' demo_store = Some (Inr (Ref 0), demo_base, s') \<and>
     program_maps s' = program_maps demo_store \<and> file_maps s' = file_maps demo_store \<and>
     globals (runtimes s' 0) = globals (runtimes demo_store 0) \<and> trace s' = []"
  using builtin_frame [of "''k6''" 0 demo demo_base demo_store]
  by (auto simp: builtin_name_def demo_def demo_base_def demo_store_def)







text \<open>
  C8. Two \<open>Open\<close> calls whose specifiers resolve to the same canonical path \<open>P\<close>, through
  contexts that share the file cache (the same context in particular): when the first call
  returns content, the second returns the same content and leaves the store as it is, so it
  does not call the loader; the first call has called the loader once if \<open>P\<close> was not in the
  cache (and not at all if it was), and afterwards the cache holds the content for \<open>P\<close>.
\<close>

theorem open_cached:
  assumes "Resolve c (pwd i) name1 = P" and "Resolve c (pwd j) name2 = P"
    and "files j = files i"
    and "Open c i name1 s = (Inr d, s1)"
  shows "Open c j name2 s1 = (Inr d, s1)
       \<and> trace s1 = trace s @ (if file_maps s (files i) P = None then [OpenLoad P] else [])
       \<and> file_maps s1 (files i) P = Some d"
proof (cases "file_maps s (files i) P")
  case None
  with assms(1,4) obtain sd where "Load c (fs i) (pwd i) name1 = Inr sd" and "Data sd = d"
    and s1: "s1 = (emit (OpenLoad P) s)\<lparr>file_maps := (file_maps s)
                 (files i := (file_maps s (files i))(P \<mapsto> d))\<rparr>"
    by (auto simp: Open_def Let_def split: sum.splits)
  from s1 have "file_maps s1 (files i) P = Some d" and "trace s1 = trace s @ [OpenLoad P]" by simp_all
  with None assms(2,3) show ?thesis by (simp add: Open_def)
next
  case (Some d')
  with assms(1,4) have "d' = d" and "s1 = s" by (simp_all add: Open_def)
  with Some assms(2,3) show ?thesis by (simp add: Open_def)
qed

theorem open_cached_witness:
  "\<exists>s1. Open demo demo_base ''a.txt'' demo_store = (Inr ''hello'', s1) \<and>
     Open demo demo_base ''./a.txt'' s1 = (Inr ''hello'', s1) \<and>
     trace s1 = [OpenLoad ''/t/a.txt'']"
proof -
  obtain s1 where first: "Open demo demo_base ''a.txt'' demo_store = (Inr ''hello'', s1)"
    by (simp add: Open_def demo_defs Let_def)
  from open_cached [of demo demo_base "''a.txt''" "''/t/a.txt''" demo_base "''./a.txt''", OF _ _ _ first]
  have "Open demo demo_base ''./a.txt'' s1 = (Inr ''hello'', s1) \<and> trace s1 = [OpenLoad ''/t/a.txt'']"
    by (simp add: demo_defs)
  with first show ?thesis by blast
qed

lemma cached_program_miss_result:
  assumes "program_maps s (programs i) P = None"
  shows "fst (cached_program c i q name P s) = load_transform_compile c (fs i) q name"
  using assms
  by (simp add: cached_program_def load_transform_compile_def Let_def split: sum.splits)


lemma restored_entered:
  fixes i s t
  defines "s' \<equiv> restored i s ((entered_store i s)\<lparr>trace := t\<rparr>)"
  shows "program_maps s' = program_maps s" and "file_maps s' = file_maps s"
    and "next_ref s' = next_ref s" and "trace s' = t"
    and "globals (runtimes s' (runtime i)) =
           (globals (runtimes s (runtime i)))
             (''module'' \<mapsto> to_value (runtime_Get (runtimes s (runtime i)) ''module''),
              ''exports'' \<mapsto> to_value (runtime_Get (runtimes s (runtime i)) ''exports''))"
    and "objects (runtimes s' (runtime i)) = objects (runtimes s (runtime i)) @
             [\<lambda>k. Undefined,
              (\<lambda>k. Undefined)(''exports'' := Ref (length (objects (runtimes s (runtime i)))))]"
    and "r \<noteq> runtime i \<Longrightarrow> runtimes s' r = runtimes s r"
proof -
  have g: "(globals rt)(''exports'' \<mapsto> a, ''module'' \<mapsto> b, ''module'' \<mapsto> m, ''exports'' \<mapsto> e)
             = (globals rt)(''module'' \<mapsto> m, ''exports'' \<mapsto> e)"
    for rt :: Runtime and a b m e
    by (rule ext) simp
  show "program_maps s' = program_maps s" "file_maps s' = file_maps s"
    "next_ref s' = next_ref s" "trace s' = t"
    "globals (runtimes s' (runtime i)) =
           (globals (runtimes s (runtime i)))
             (''module'' \<mapsto> to_value (runtime_Get (runtimes s (runtime i)) ''module''),
              ''exports'' \<mapsto> to_value (runtime_Get (runtimes s (runtime i)) ''exports''))"
    "objects (runtimes s' (runtime i)) = objects (runtimes s (runtime i)) @
             [\<lambda>k. Undefined,
              (\<lambda>k. Undefined)(''exports'' := Ref (length (objects (runtimes s (runtime i)))))]"
    "r \<noteq> runtime i \<Longrightarrow> runtimes s' r = runtimes s r"
    by (simp_all add: s'_def restored_def entered_store_def module_scope_eq set_runtime_def
        runtime_Set_def runtime_Get_def g)
qed






lemma load_transform_compile_LoadError:
  "Load c f q name = Inl e \<Longrightarrow> load_transform_compile c f q name = Inl (LoadError e)"
  by (simp add: load_transform_compile_def)

lemma requireFile_load_failed:
  assumes "program_maps s (programs i) (Resolve c (pwd i) arg) = None"
    and "Load c (fs i) (pwd i) arg = Inl e"
  shows "requireFile (Suc n) c i arg s =
           Some (Inl (LoadError e), i,
             restored i s ((entered_store i s)
               \<lparr>trace := trace s @ [RequireLoad (Resolve c (pwd i) arg)]\<rparr>))"
proof -
  have "cached_program c (entered_ctx c i arg) (pwd i) arg (Resolve c (pwd i) arg) (entered_store i s)
      = (Inl (LoadError e), (entered_store i s)\<lparr>trace := trace s @ [RequireLoad (Resolve c (pwd i) arg)]\<rparr>)"
    using assms by (simp add: cached_program_def Let_def emit_def)
  then show ?thesis by (simp add: requireFile_Suc)
qed

text \<open>
  C7. The claim that \<open>Require\<close> fails in its resolution step when the target file does not
  exist does not hold: \<open>Resolve\<close> returns a path and cannot fail, and the file system is
  read only by the loader, on a cache miss. Counterexample: the file of a cached module has
  been deleted, and \<open>Require\<close> of it returns the module's exports.
\<close>

theorem missing_file_counterexample:
  "Load demo (fs deleted_ctx) (pwd deleted_ctx) ''./lib.js'' = Inl ''file not found'' \<and>
   map_option fst (Require 1 demo deleted_ctx ''./lib.js'' warm_store) = Some (Inr (Ref 5))"
  by (simp add: run_defs demo_defs)

text \<open>
  C7, as amended. When the canonical path is not in the program cache and the loader fails for
  the target, \<open>Require\<close> fails with the loader's error, after the scope of the load has been
  entered (the two objects are made) and the loader has been called once for the path. When
  the path is in the cache, a \<open>Require\<close> call that returns has made no pipeline call, so no
  loader call, for it, and the cached module is the same.
\<close>

theorem missing_file_load_error:
  "(\<not> builtin_name arg \<and> program_maps s (programs i) (Resolve c (pwd i) arg) = None \<and>
    Load c (fs i) (pwd i) arg = Inl e \<longrightarrow>
      (\<exists>s'. Require (Suc n) c i arg s = Some (Inl (LoadError e), i, s') \<and>
         trace s' = trace s @ [RequireLoad (Resolve c (pwd i) arg)] \<and>
         length (objects (runtimes s' (runtime i))) = length (objects (runtimes s (runtime i))) + 2))
   \<and> (\<not> builtin_name arg \<and> program_maps s (programs i) (Resolve c (pwd i) arg) = Some v \<and>
      Require m c i arg s = Some (res, i', t) \<longrightarrow>
        pipeline_calls (Resolve c (pwd i) arg) t = pipeline_calls (Resolve c (pwd i) arg) s \<and>
        program_maps t (programs i) (Resolve c (pwd i) arg) = Some v)"
proof (intro conjI impI)
  assume a: "\<not> builtin_name arg \<and> program_maps s (programs i) (Resolve c (pwd i) arg) = None \<and>
    Load c (fs i) (pwd i) arg = Inl e"
  then have "Require (Suc n) c i arg s = Some (Inl (LoadError e), i,
      restored i s ((entered_store i s)\<lparr>trace := trace s @ [RequireLoad (Resolve c (pwd i) arg)]\<rparr>))"
    by (simp add: Require_file requireFile_load_failed)
  then show "\<exists>s'. Require (Suc n) c i arg s = Some (Inl (LoadError e), i, s') \<and>
         trace s' = trace s @ [RequireLoad (Resolve c (pwd i) arg)] \<and>
         length (objects (runtimes s' (runtime i))) = length (objects (runtimes s (runtime i))) + 2"
    by (simp add: restored_entered)
next
  assume b: "\<not> builtin_name arg \<and> program_maps s (programs i) (Resolve c (pwd i) arg) = Some v \<and>
      Require m c i arg s = Some (res, i', t)"
  then have "Require m c i arg s = Some (res, i', t)" by simp
  then have "reuses (programs i) (Resolve c (pwd i) arg) i s i' t" by (rule Require_reuses)
  with b show "pipeline_calls (Resolve c (pwd i) arg) t = pipeline_calls (Resolve c (pwd i) arg) s"
    and "program_maps t (programs i) (Resolve c (pwd i) arg) = Some v"
    by (simp_all add: reuses_def)
qed

theorem missing_file_load_error_witness:
  "(\<exists>s'. Require 1 demo demo_base ''./missing.js'' demo_store =
           Some (Inl (LoadError ''file not found''), demo_base, s') \<and>
         trace s' = [RequireLoad ''/t/missing.js''])
   \<and> (\<exists>res i' t. Require 1 demo deleted_ctx ''./lib.js'' warm_store = Some (res, i', t) \<and>
         pipeline_calls ''/t/lib.js'' t = pipeline_calls ''/t/lib.js'' warm_store)"
proof -
  note inst1 = missing_file_load_error [of "''./missing.js''" demo_store demo_base demo
      "''file not found''" 0, THEN conjunct1]
  have "\<not> builtin_name ''./missing.js'' \<and>
      program_maps demo_store (programs demo_base) (Resolve demo (pwd demo_base) ''./missing.js'') = None \<and>
      Load demo (fs demo_base) (pwd demo_base) ''./missing.js'' = Inl ''file not found''"
    by (simp add: builtin_name_def demo_defs)
  with inst1 have "\<exists>s'. Require (Suc 0) demo demo_base ''./missing.js'' demo_store =
           Some (Inl (LoadError ''file not found''), demo_base, s') \<and>
         trace s' = trace demo_store @ [RequireLoad (Resolve demo (pwd demo_base) ''./missing.js'')] \<and>
         length (objects (runtimes s' (runtime demo_base))) =
           length (objects (runtimes demo_store (runtime demo_base))) + 2"
    by (rule mp)
  moreover have "Resolve demo (pwd demo_base) ''./missing.js'' = ''/t/missing.js''"
    and "trace demo_store = []"
    by (simp_all add: demo_defs)
  ultimately have 1: "\<exists>s'. Require 1 demo demo_base ''./missing.js'' demo_store =
           Some (Inl (LoadError ''file not found''), demo_base, s') \<and>
         trace s' = [RequireLoad ''/t/missing.js'']"
    by auto
  let ?call = "Require 1 demo deleted_ctx ''./lib.js'' warm_store"
  have "?call \<noteq> None" by (simp add: run_defs demo_defs)
  then obtain res i' t where call: "?call = Some (res, i', t)" by (rule SomeE3)
  have pre: "\<not> builtin_name ''./lib.js'' \<and>
      program_maps warm_store (programs deleted_ctx) (Resolve demo (pwd deleted_ctx) ''./lib.js'')
        = Some \<lparr>pgm = lib_js, src = ''lib''\<rparr>"
    by (simp add: builtin_name_def run_defs demo_defs)
  from missing_file_load_error [of "''./lib.js''" warm_store deleted_ctx demo _ _
      "\<lparr>pgm = lib_js, src = ''lib''\<rparr>" 1 res i' t, THEN conjunct2] pre call
  have "pipeline_calls ''/t/lib.js'' t = pipeline_calls ''/t/lib.js'' warm_store"
    by (simp add: deleted_ctx_def demo_base_def demo_def demo_Resolve_def)
  with call 1 show ?thesis by blast
qed

lemma grows_refl: "grows i s i s"
  by (simp add: grows_def same_ctx_refl)

lemma grows_set_runtime:
  "length (objects (runtimes s r)) \<le> length (objects rt) \<Longrightarrow> grows i s i (set_runtime r rt s)"
  by (simp add: grows_def same_ctx_refl)

lemma Require_grows:
  assumes "Require n c i arg s = Some (res, i', s')"
  shows "grows i s i' s'"
proof (cases "builtin_name arg")
  case True
  with assms have "requireModule c i arg s = (res, s')" and "i' = i"
    by (auto simp: Require_builtin prod_eq_iff)
  then show ?thesis
    using requireModule_frame [of grows c i arg s res s'] grows_refl grows_set_runtime by simp
next
  case False
  with assms show ?thesis by (simp add: Require_file requireFile_grows)
qed

lemma exec_grows:
  assumes "exec (Require_via (requireFile n c) c) (Open c) r p i s = Some (res, i', s')"
  shows "grows i s i' s'"
proof (rule exec_frame [where R = grows, OF _ _ _ _ _ assms])
  show "grows i s i s" for i s by (rule grows_refl)
  show "grows i s i1 s1 \<Longrightarrow> grows i1 s1 i2 s2 \<Longrightarrow> grows i s i2 s2" for i s i1 s1 i2 s2
    by (rule grows_trans)
  show "length (objects (runtimes s r)) \<le> length (objects rt) \<Longrightarrow> grows i s i (set_runtime r rt s)"
    for i s rt by (rule grows_set_runtime)
  show "Require_via (requireFile n c) c i name s = Some (res, i1, s1) \<Longrightarrow> grows i s i1 s1"
    for i name s res i1 s1 using Require_grows [of n c i name s res i1 s1]
    by (simp add: Require_def)
  show "Open c i name s = (res, s1) \<Longrightarrow> grows i s i s1" for i name s res s1
    by (rule Open_grows)
qed

lemma cached_program_available:
  assumes "program_maps s (programs i) P = Some v \<or>
           program_maps s (programs i) P = None \<and> load_transform_compile c (fs i) q name = Inr v"
  shows "fst (cached_program c i q name P s) = Inr v"
  using assms by (auto simp: cached_program_hit cached_program_miss_result)

lemma count_list_prefix:
  assumes "prefix (xs @ [x]) ys"
  shows "count_list xs x < count_list ys x"
proof -
  from assms obtain zs where "ys = (xs @ [x]) @ zs" by (auto simp: prefix_def)
  then show ?thesis by simp
qed

lemma count_list_prefix_le: "prefix xs ys \<Longrightarrow> count_list xs x \<le> count_list ys x"
  by (auto simp: prefix_def)

lemma restored_objects [simp]:
  "objects (runtimes (restored i s t) (runtime i)) = objects (runtimes t (runtime i))"
  "object_Get (runtimes (restored i s t) (runtime i)) a k = object_Get (runtimes t (runtime i)) a k"
  by (simp_all add: restored_def runtime_Set_def object_Get_def)

lemma entered_objects:
  "length (objects (runtimes (entered_store i s) (runtime i))) =
     length (objects (runtimes s (runtime i))) + 2"
  "module_ref i s = Suc (length (objects (runtimes s (runtime i))))"
  by (simp_all add: entered_store_def module_ref_def module_scope_eq)

lemma requireFile_runs:
  assumes avail: "program_maps s (programs i) (Resolve c (pwd i) arg) = Some v \<or>
           program_maps s (programs i) (Resolve c (pwd i) arg) = None \<and>
           load_transform_compile c (fs i) (pwd i) arg = Inr v"
    and rf: "requireFile n c i arg s = Some (res, i', s')"
  shows "count_list (trace s) (RunCall (Resolve c (pwd i) arg))
           < count_list (trace s') (RunCall (Resolve c (pwd i) arg))"
    and "Suc (length (objects (runtimes s (runtime i)))) < length (objects (runtimes s' (runtime i)))"
    and "res = Inr w \<Longrightarrow>
           w = object_Get (runtimes s' (runtime i)) (Suc (length (objects (runtimes s (runtime i)))))
                 ''exports''"
proof -
  let ?P = "Resolve c (pwd i) arg"
  let ?r = "runtime i"
  let ?L = "length (objects (runtimes s ?r))"
  from rf obtain k where n: "n = Suc k" by (cases n) auto
  from avail have av: "fst (cached_program c (entered_ctx c i arg) (pwd i) arg ?P (entered_store i s)) = Inr v"
    by (intro cached_program_available) simp
  have facts: "count_list (trace s) (RunCall ?P) < count_list (trace s3) (RunCall ?P) \<and>
      Suc ?L < length (objects (runtimes s3 ?r))"
    if cp: "cached_program c (entered_ctx c i arg) (pwd i) arg ?P (entered_store i s) = (Inr p, s2)"
      and ex: "exec (Require_via (requireFile k c) c) (Open c) ?r (pgm p) (entered_ctx c i arg)
                 (emit (RunCall ?P) s2) = Some (out, i2, s3)"
    for p s2 out i2 s3
  proof -
    from cp have g1: "grows (entered_ctx c i arg) (entered_store i s) (entered_ctx c i arg) s2"
      by (rule cached_program_grows)
    from ex have g2: "grows (entered_ctx c i arg) (emit (RunCall ?P) s2) i2 s3" by (rule exec_grows)
    from g1 have "prefix (trace s) (trace s2)" by (simp add: grows_def)
    then have "count_list (trace s) (RunCall ?P) \<le> count_list (trace s2) (RunCall ?P)"
      by (rule count_list_prefix_le)
    moreover from g2 have "prefix (trace s2 @ [RunCall ?P]) (trace s3)" by (simp add: grows_def)
    then have "count_list (trace s2) (RunCall ?P) < count_list (trace s3) (RunCall ?P)"
      by (rule count_list_prefix)
    moreover from g1 have "?L + 2 \<le> length (objects (runtimes s2 ?r))"
      using entered_objects(1) [of i s] by (simp add: grows_def del: entered_objects) (metis)
    moreover from g2 have "length (objects (runtimes s2 ?r)) \<le> length (objects (runtimes s3 ?r))"
      by (simp add: grows_def)
    ultimately show ?thesis by simp
  qed
  from rf [unfolded n]
  have "count_list (trace s) (RunCall ?P) < count_list (trace s') (RunCall ?P) \<and>
      Suc ?L < length (objects (runtimes s' ?r)) \<and>
      (res = Inr w \<longrightarrow> w = object_Get (runtimes s' ?r) (Suc ?L) ''exports'')"
  proof (cases rule: requireFile_SucE)
    case (not_compiled err s2)
    with av show ?thesis by simp
  next
    case (thrown p s2 err i2 s3)
    from facts [OF thrown(1,2)] thrown(3,5) show ?thesis by simp
  next
    case (returned p s2 v' i2 s3)
    from facts [OF returned(1,2)] returned(3,5) show ?thesis
      by (simp add: entered_objects(2))
  qed
  then show "count_list (trace s) (RunCall ?P) < count_list (trace s') (RunCall ?P)"
    and "Suc ?L < length (objects (runtimes s' ?r))"
    and "res = Inr w \<Longrightarrow> w = object_Get (runtimes s' ?r) (Suc ?L) ''exports''"
    by simp_all
qed


text \<open>
  C4. Execution is not memoised. Whenever a \<open>Require\<close> call of a file path returns and a
  compiled module for the path was available to it (in the cache, or from the pipeline on a
  miss), the module's program has been run once more during the call, the \<open>exports\<close> and
  \<open>module\<close> objects made for the call are new objects of the runtime, and a returned value is
  the field \<open>exports\<close> of that new \<open>module\<close> object as the program left it. In the scenario
  of the specification (\<open>main.js\<close> requires \<open>lib.js\<close> twice and adds 1 to \<open>value\<close> of the
  second result), \<open>x\<close> is 1 afterwards, \<open>lib.js\<close> has been run twice, and the two results are
  distinct objects: the first still has \<open>value\<close> 1, the second has \<open>value\<close> 2.
\<close>

theorem reexecuted:
  "(\<not> builtin_name arg \<and>
    (program_maps s (programs i) (Resolve c (pwd i) arg) = Some v \<or>
     program_maps s (programs i) (Resolve c (pwd i) arg) = None \<and>
     load_transform_compile c (fs i) (pwd i) arg = Inr v) \<and>
    Require n c i arg s = Some (res, i', s') \<longrightarrow>
      count_list (trace s) (RunCall (Resolve c (pwd i) arg))
        < count_list (trace s') (RunCall (Resolve c (pwd i) arg)) \<and>
      Suc (length (objects (runtimes s (runtime i)))) < length (objects (runtimes s' (runtime i))) \<and>
      (\<forall>w. res = Inr w \<longrightarrow>
         w = object_Get (runtimes s' (runtime i)) (Suc (length (objects (runtimes s (runtime i)))))
               ''exports''))
   \<and> map_option
        (\<lambda>(res, i, s).
           (runtime_Get (runtimes s 0) ''x'', count_list (trace s) (RunCall ''/t/lib.js''),
            object_Get (runtimes s 0) 4 ''value'', object_Get (runtimes s 0) 7 ''value''))
        (Require 2 demo demo_base ''./main.js'' demo_store)
      = Some (Some (Num 1), 2, Num 1, Num 2)"
proof (intro conjI impI allI)
  assume a: "\<not> builtin_name arg \<and>
    (program_maps s (programs i) (Resolve c (pwd i) arg) = Some v \<or>
     program_maps s (programs i) (Resolve c (pwd i) arg) = None \<and>
     load_transform_compile c (fs i) (pwd i) arg = Inr v) \<and>
    Require n c i arg s = Some (res, i', s')"
  then have avail: "program_maps s (programs i) (Resolve c (pwd i) arg) = Some v \<or>
     program_maps s (programs i) (Resolve c (pwd i) arg) = None \<and>
     load_transform_compile c (fs i) (pwd i) arg = Inr v"
    and rf: "requireFile n c i arg s = Some (res, i', s')"
    using Require_file [of arg n c i s] by auto
  from requireFile_runs(1) [OF avail rf]
  show "count_list (trace s) (RunCall (Resolve c (pwd i) arg))
        < count_list (trace s') (RunCall (Resolve c (pwd i) arg))" .
  from requireFile_runs(2) [OF avail rf]
  show "Suc (length (objects (runtimes s (runtime i)))) < length (objects (runtimes s' (runtime i)))" .
  fix w assume "res = Inr w"
  with requireFile_runs(3) [OF avail rf]
  show "w = object_Get (runtimes s' (runtime i)) (Suc (length (objects (runtimes s (runtime i)))))
               ''exports''" .
next
  show "map_option
        (\<lambda>(res, i, s).
           (runtime_Get (runtimes s 0) ''x'', count_list (trace s) (RunCall ''/t/lib.js''),
            object_Get (runtimes s 0) 4 ''value'', object_Get (runtimes s 0) 7 ''value''))
        (Require 2 demo demo_base ''./main.js'' demo_store)
      = Some (Some (Num 1), 2, Num 1, Num 2)"
    by (simp add: run_defs demo_defs numeral_2_eq_2)
qed

theorem reexecuted_witness:
  "count_list (trace warm_store) (RunCall ''/t/lib.js'') = 1 \<and>
   length (objects (runtimes warm_store 0)) = 3 \<and>
   (\<exists>i' s'. Require 1 demo demo_base ''./lib.js'' warm_store = Some (Inr (Ref 5), i', s') \<and>
      1 < count_list (trace s') (RunCall ''/t/lib.js'') \<and>
      4 < length (objects (runtimes s' 0)) \<and>
      Ref 5 = object_Get (runtimes s' 0) 4 ''exports'')"
proof -
  let ?call = "Require 1 demo demo_base ''./lib.js'' warm_store"
  have before: "count_list (trace warm_store) (RunCall ''/t/lib.js'') = 1"
    "length (objects (runtimes warm_store 0)) = 3"
    by (simp_all add: run_defs demo_defs)
  have "map_option fst ?call = Some (Inr (Ref 5))" by (simp add: run_defs demo_defs)
  then obtain i' s' where call: "?call = Some (Inr (Ref 5), i', s')" by auto
  have pre: "\<not> builtin_name ''./lib.js'' \<and>
    (program_maps warm_store (programs demo_base) (Resolve demo (pwd demo_base) ''./lib.js'')
       = Some \<lparr>pgm = lib_js, src = ''lib''\<rparr> \<or>
     program_maps warm_store (programs demo_base) (Resolve demo (pwd demo_base) ''./lib.js'') = None \<and>
     load_transform_compile demo (fs demo_base) (pwd demo_base) ''./lib.js''
       = Inr \<lparr>pgm = lib_js, src = ''lib''\<rparr>)"
    by (simp add: builtin_name_def run_defs demo_defs)
  have path: "Resolve demo (pwd demo_base) ''./lib.js'' = ''/t/lib.js''" "runtime demo_base = 0"
    by (simp_all add: demo_defs)
  from reexecuted [of "''./lib.js''" warm_store demo_base demo "\<lparr>pgm = lib_js, src = ''lib''\<rparr>"
      1 "Inr (Ref 5)" i' s', THEN conjunct1] pre call
  have "count_list (trace warm_store) (RunCall (Resolve demo (pwd demo_base) ''./lib.js''))
        < count_list (trace s') (RunCall (Resolve demo (pwd demo_base) ''./lib.js'')) \<and>
      Suc (length (objects (runtimes warm_store (runtime demo_base))))
        < length (objects (runtimes s' (runtime demo_base))) \<and>
      (\<forall>w. Inr (Ref 5) = (Inr w :: error + val) \<longrightarrow>
         w = object_Get (runtimes s' (runtime demo_base))
               (Suc (length (objects (runtimes warm_store (runtime demo_base))))) ''exports'')"
    by blast
  with before path call show ?thesis by (simp add: eval_nat_numeral)
qed

end
